theory Spec2Isabelle
  imports Complex_Main "HOL-Library.AList" "HOL-Library.Multiset"
begin

section \<open>OpenEnsembles: the cluster container and the validation metrics\<close>

text \<open>
  A shallow embedding of \<^verbatim>\<open>openensembles.py\<close> (classes \<^verbatim>\<open>cluster\<close> and
  \<^verbatim>\<open>validation\<close>) and of \<^verbatim>\<open>validation.py\<close> (class \<^verbatim>\<open>validation\<close>).

  Conventions of the embedding.
  \<^item> A raised Python exception is a value \<open>Inl e\<close> of a sum type, a normal return
    is \<open>Inr v\<close>.
  \<^item> A Python dictionary is an association list in insertion order; a store
    \<^verbatim>\<open>d[k] = v\<close> keeps the position of an existing key and appends a new one.
  \<^item> A method that can write to its object returns the object after the call next
    to its outcome.
  \<^item> Floating point numbers are idealised: a finite float is a real number, and
    the special values of IEEE arithmetic (NaN and the two infinities) are kept as
    separate values. Rounding and overflow are not modelled.
\<close>

subsection \<open>Exceptions and dictionaries\<close>

datatype py_error =
    ValueError string
  | KeyError string
  | IndexError
  | ZeroDivisionError
  | AttributeError string
  | InputError

type_synonym ('k, 'v) dict = "('k \<times> 'v) list"

definition dict_keys :: "('k, 'v) dict \<Rightarrow> 'k list" where
  "dict_keys d = map fst d"

definition dict_contains :: "('k, 'v) dict \<Rightarrow> 'k \<Rightarrow> bool" where
  "dict_contains d k = (map_of d k \<noteq> None)"

definition dict_get :: "(string, 'v) dict \<Rightarrow> string \<Rightarrow> py_error + 'v" where
  "dict_get d k = (case map_of d k of None \<Rightarrow> Inl (KeyError k) | Some v \<Rightarrow> Inr v)"

definition dict_set :: "('k, 'v) dict \<Rightarrow> 'k \<Rightarrow> 'v \<Rightarrow> ('k, 'v) dict" where
  "dict_set d k v = AList.update k v d"

text \<open>Parameter values stored with a clustering solution, compared with Python's \<^verbatim>\<open>==\<close>:
  numbers (and booleans) compare by value across types, everything else structurally.\<close>

datatype pyval = PInt int | PFloat real | PStr string | PBool bool | PNone

fun py_num :: "pyval \<Rightarrow> real option" where
  "py_num (PInt i) = Some (of_int i)"
| "py_num (PFloat r) = Some r"
| "py_num (PBool b) = Some (if b then 1 else 0)"
| "py_num (PStr s) = None"
| "py_num PNone = None"

definition py_eq :: "pyval \<Rightarrow> pyval \<Rightarrow> bool" where
  "py_eq a b =
     (case (py_num a, py_num b) of
        (Some x, Some y) \<Rightarrow> x = y
      | (None, None) \<Rightarrow> a = b
      | (Some x, None) \<Rightarrow> False
      | (None, Some y) \<Rightarrow> False)"

subsection \<open>The data object and the cluster object (openensembles.py)\<close>

type_synonym matrix = "real list list"

text \<open>Class \<^verbatim>\<open>data\<close>: only the dictionary \<^verbatim>\<open>D\<close> of named data matrices is read by the
  operations modelled here (the data frame, the x-axis values and the transform
  parameters are left out).\<close>

record data =
  D :: "(string, matrix) dict"

record cluster =
  dataObj :: data
  labels :: "(string, int list) dict"
  data_source :: "(string, string) dict"
  params :: "(string, (string, pyval) dict) dict"
  algorithms :: "(string, string) dict"
  clusterNumbers :: "(string, int list) dict"

text \<open>\<^verbatim>\<open>cluster.__init__\<close>: an empty container over a data object.\<close>

definition cluster_init :: "data \<Rightarrow> cluster" where
  "cluster_init d =
     \<lparr>dataObj = d, labels = [], data_source = [], params = [], algorithms = [],
      clusterNumbers = []\<rparr>"

text \<open>\<^verbatim>\<open>np.unique\<close>: the sorted distinct values.\<close>

definition np_unique :: "int list \<Rightarrow> int list" where
  "np_unique xs = sort (remdups xs)"

subsubsection \<open>search_field\<close>

text \<open>The three loops over \<^verbatim>\<open>data_source\<close>, \<^verbatim>\<open>algorithms\<close> and \<^verbatim>\<open>clusterNumbers\<close>: each
  walks the keys, reads the entry and appends the name when the entry equals the value.\<close>

fun search_entries ::
  "(string, 'a) dict \<Rightarrow> ('a \<Rightarrow> pyval) \<Rightarrow> pyval \<Rightarrow> string list \<Rightarrow> string list \<Rightarrow>
   py_error + string list" where
  "search_entries d f v [] names = Inr names"
| "search_entries d f v (name # rest) names =
     (case dict_get d name of
        Inl e \<Rightarrow> Inl e
      | Inr x \<Rightarrow>
          if py_eq (f x) v then search_entries d f v rest (names @ [name])
          else search_entries d f v rest names)"

text \<open>The loop of the last branch: \<^verbatim>\<open>names\<close> and the flag \<^verbatim>\<open>paramFound\<close> are the loop's
  variables.\<close>

fun search_params ::
  "(string, (string, pyval) dict) dict \<Rightarrow> string \<Rightarrow> pyval \<Rightarrow> string list \<Rightarrow>
   string list \<Rightarrow> bool \<Rightarrow> py_error + (string list \<times> bool)" where
  "search_params ps field v [] names paramFound = Inr (names, paramFound)"
| "search_params ps field v (name # rest) names paramFound =
     (case dict_get ps name of
        Inl e \<Rightarrow> Inl e
      | Inr p \<Rightarrow>
          if dict_contains p field then
            (case dict_get p field of
               Inl e \<Rightarrow> Inl e
             | Inr w \<Rightarrow>
                 if py_eq w v then search_params ps field v rest (names @ [name]) True
                 else search_params ps field v rest names True)
          else search_params ps field v rest names paramFound)"

definition search_field_msg :: "string \<Rightarrow> string" where
  "search_field_msg field =
     ''Field '' @ field @ '' was not found in parameters of an clustering solutions''"

definition search_field ::
  "cluster \<Rightarrow> string \<Rightarrow> pyval \<Rightarrow> (py_error + string list) \<times> cluster" where
  "search_field self field v =
     (if field = ''data_source'' then
        (search_entries (data_source self) PStr v (dict_keys (data_source self)) [], self)
      else if field = ''algorithm'' then
        (search_entries (algorithms self) PStr v (dict_keys (algorithms self)) [], self)
      else if field = ''clusterNumber'' then
        (search_entries (clusterNumbers self) (\<lambda>cn. PInt (int (length cn))) v
           (dict_keys (clusterNumbers self)) [], self)
      else
        (case search_params (params self) field v (dict_keys (params self)) [] False of
           Inl e \<Rightarrow> (Inl e, self)
         | Inr (names, paramFound) \<Rightarrow>
             if \<not> paramFound then (Inl (ValueError (search_field_msg field)), self)
             else (Inr names, self)))"

subsubsection \<open>slice\<close>

definition slice_msg :: "string \<Rightarrow> string" where
  "slice_msg name =
     ''ERROR: the source you requested for slicing does not exist in cluster object '' @ name"

text \<open>The loop of \<^verbatim>\<open>slice\<close>: \<open>c\<close> is the new object under construction.\<close>

fun slice_loop :: "cluster \<Rightarrow> string list \<Rightarrow> string list \<Rightarrow> cluster \<Rightarrow> py_error + cluster" where
  "slice_loop self names_existing [] c = Inr c"
| "slice_loop self names_existing (name # rest) c =
     (if name \<notin> set names_existing then Inl (ValueError (slice_msg name))
      else
        (case dict_get (labels self) name of Inl e \<Rightarrow> Inl e | Inr l \<Rightarrow>
        (case dict_get (data_source self) name of Inl e \<Rightarrow> Inl e | Inr s \<Rightarrow>
        (case dict_get (params self) name of Inl e \<Rightarrow> Inl e | Inr p \<Rightarrow>
        (case dict_get (clusterNumbers self) name of Inl e \<Rightarrow> Inl e | Inr n \<Rightarrow>
        (case dict_get (algorithms self) name of Inl e \<Rightarrow> Inl e | Inr a \<Rightarrow>
          slice_loop self names_existing rest
            (c\<lparr>labels := dict_set (labels c) name l,
               data_source := dict_set (data_source c) name s,
               params := dict_set (params c) name p,
               clusterNumbers := dict_set (clusterNumbers c) name n,
               algorithms := dict_set (algorithms c) name a\<rparr>)))))))"

definition slice :: "cluster \<Rightarrow> string list \<Rightarrow> (py_error + cluster) \<times> cluster" where
  "slice self names =
     (slice_loop self (dict_keys (labels self)) names (cluster_init (dataObj self)), self)"

subsubsection \<open>mixture_model\<close>

text \<open>
  Modelled from the spec: \<^verbatim>\<open>finishing.mixture_model\<close> (module \<^verbatim>\<open>finishing.py\<close> is not among
  the sources). The spec's contract is
  \<^verbatim>\<open>mixture_model(ensemble, K, iterations) -> LabelAssignment\<close>,
  "Must support K>=2; fails with InputError for K<2 or ensemble size <2". The labels the
  randomly initialised EM iteration ends with are the parameter \<open>em\<close>.
\<close>

type_synonym em_labels = "int list list \<Rightarrow> nat \<Rightarrow> int \<Rightarrow> int \<Rightarrow> int list"

definition finish_mixture_model ::
  "em_labels \<Rightarrow> int list list \<Rightarrow> nat \<Rightarrow> int \<Rightarrow> int \<Rightarrow> py_error + int list" where
  "finish_mixture_model em parg N K iterations =
     (if K < 2 \<or> length parg < 2 then Inl InputError else Inr (em parg N K iterations))"

definition mixture_model_msg :: string where
  "mixture_model_msg =
     ''Mixture Model is a finsihing technique for an ensemble, the cluster object must contain more than one solution''"

text \<open>The list \<^verbatim>\<open>parg\<close>: one label assignment per key of \<^verbatim>\<open>self.labels\<close>.\<close>

fun collect_parg :: "(string, int list) dict \<Rightarrow> string list \<Rightarrow> int list list \<Rightarrow> py_error + int list list" where
  "collect_parg d [] parg = Inr parg"
| "collect_parg d (solution # rest) parg =
     (case dict_get d solution of
        Inl e \<Rightarrow> Inl e
      | Inr l \<Rightarrow> collect_parg d rest (parg @ [l]))"

definition mixture_model ::
  "em_labels \<Rightarrow> cluster \<Rightarrow> int \<Rightarrow> int \<Rightarrow> (py_error + cluster) \<times> cluster" where
  "mixture_model em self K iterations =
     (let params0 = dict_set (dict_set [] ''iterations'' (PInt iterations)) ''K'' (PInt K) in
      if length (params self) < 2 then (Inl (ValueError mixture_model_msg), self)
      else
        (case dict_get (D (dataObj self)) ''parent'' of Inl e \<Rightarrow> (Inl e, self) | Inr parent \<Rightarrow>
        (case collect_parg (labels self) (dict_keys (labels self)) [] of
          Inl e \<Rightarrow> (Inl e, self) | Inr parg \<Rightarrow>
        (case finish_mixture_model em parg (length parent) K iterations of
          Inl e \<Rightarrow> (Inl e, self)
        | Inr ml \<Rightarrow>
            (let c = cluster_init (dataObj self);
                name = ''mixture_model'';
                c = c\<lparr>labels := dict_set (labels c) name ml\<rparr>;
                c = c\<lparr>data_source := dict_set (data_source c) name ''parent''\<rparr>;
                c = c\<lparr>clusterNumbers := dict_set (clusterNumbers c) name (np_unique ml)\<rparr>;
                c = c\<lparr>params := dict_set (params c) name params0\<rparr>;
                c = c\<lparr>algorithms := dict_set (algorithms c) name ''mixture_model''\<rparr>
             in (Inr c, self))))))"

subsection \<open>Numbers: floats with NaN and infinities, and Python's numeric tower\<close>

text \<open>A float is a real number or one of the three special values. Signed zeros,
  rounding and overflow are not modelled.\<close>

datatype fl = Fin real | NaN | PInf | NInf

fun fl_add :: "fl \<Rightarrow> fl \<Rightarrow> fl" where
  "fl_add (Fin a) (Fin b) = Fin (a + b)"
| "fl_add NaN y = NaN"
| "fl_add x NaN = NaN"
| "fl_add PInf NInf = NaN"
| "fl_add NInf PInf = NaN"
| "fl_add PInf y = PInf"
| "fl_add x PInf = PInf"
| "fl_add NInf y = NInf"
| "fl_add x NInf = NInf"

fun fl_neg :: "fl \<Rightarrow> fl" where
  "fl_neg (Fin a) = Fin (- a)"
| "fl_neg NaN = NaN"
| "fl_neg PInf = NInf"
| "fl_neg NInf = PInf"

text \<open>The sign of a float that is not NaN: \<open>1\<close>, \<open>0\<close> or \<open>-1\<close>.\<close>

fun fl_sgn :: "fl \<Rightarrow> int" where
  "fl_sgn (Fin a) = (if a > 0 then 1 else if a < 0 then - 1 else 0)"
| "fl_sgn PInf = 1"
| "fl_sgn NInf = - 1"
| "fl_sgn NaN = 0"

definition fl_inf :: "int \<Rightarrow> fl" where
  "fl_inf s = (if s > 0 then PInf else if s < 0 then NInf else NaN)"

fun fl_mul :: "fl \<Rightarrow> fl \<Rightarrow> fl" where
  "fl_mul (Fin a) (Fin b) = Fin (a * b)"
| "fl_mul NaN y = NaN"
| "fl_mul x NaN = NaN"
| "fl_mul x y = fl_inf (fl_sgn x * fl_sgn y)"

text \<open>IEEE division, as numpy performs it: a zero divisor gives an infinity, or NaN for
  \<open>0/0\<close>.\<close>

fun fl_div :: "fl \<Rightarrow> fl \<Rightarrow> fl" where
  "fl_div (Fin a) (Fin b) = (if b \<noteq> 0 then Fin (a / b) else fl_inf (fl_sgn (Fin a)))"
| "fl_div NaN y = NaN"
| "fl_div x NaN = NaN"
| "fl_div (Fin a) y = Fin 0"
| "fl_div x (Fin b) = fl_inf (fl_sgn x * (if b < 0 then - 1 else 1))"
| "fl_div x y = NaN"

text \<open>Comparisons: every comparison with NaN is false.\<close>

fun fl_lt :: "fl \<Rightarrow> fl \<Rightarrow> bool" where
  "fl_lt (Fin a) (Fin b) = (a < b)"
| "fl_lt NaN y = False"
| "fl_lt x NaN = False"
| "fl_lt NInf NInf = False"
| "fl_lt NInf y = True"
| "fl_lt x NInf = False"
| "fl_lt PInf y = False"
| "fl_lt x PInf = True"

definition fl_eq :: "fl \<Rightarrow> fl \<Rightarrow> bool" where
  "fl_eq x y = (x \<noteq> NaN \<and> x = y)"

definition fl_le :: "fl \<Rightarrow> fl \<Rightarrow> bool" where
  "fl_le x y = (fl_lt x y \<or> fl_eq x y)"

fun fl_sqrt :: "fl \<Rightarrow> fl" where
  "fl_sqrt (Fin a) = (if a < 0 then NaN else Fin (sqrt a))"
| "fl_sqrt NaN = NaN"
| "fl_sqrt PInf = PInf"
| "fl_sqrt NInf = NaN"

instantiation fl :: comm_monoid_add
begin

definition zero_fl :: fl where
  "zero_fl = Fin 0"

definition plus_fl :: "fl \<Rightarrow> fl \<Rightarrow> fl" where
  "plus_fl x y = fl_add x y"

instance
proof
  fix a b c :: fl
  show "a + b + c = a + (b + c)"
    unfolding plus_fl_def by (cases a; cases b; cases c) simp_all
  show "a + b = b + a"
    unfolding plus_fl_def by (cases a; cases b) simp_all
  show "0 + a = a"
    unfolding plus_fl_def zero_fl_def by (cases a) simp_all
qed

end

text \<open>
  A Python number carries its run-time type: a Python \<^verbatim>\<open>int\<close>, a Python \<^verbatim>\<open>float\<close> or a
  numpy \<^verbatim>\<open>float64\<close>. Arithmetic gives the wider of the two types. The type decides what a
  division by zero does: between Python numbers it raises \<^verbatim>\<open>ZeroDivisionError\<close>, and as
  soon as one operand is a numpy number it returns an infinity or NaN (with a
  \<^verbatim>\<open>RuntimeWarning\<close>, which is not modelled).
\<close>

datatype kind = KInt | KFloat | KNp

fun kjoin :: "kind \<Rightarrow> kind \<Rightarrow> kind" where
  "kjoin KNp k = KNp"
| "kjoin k KNp = KNp"
| "kjoin KFloat k = KFloat"
| "kjoin k KFloat = KFloat"
| "kjoin KInt KInt = KInt"

datatype pynum = Num kind fl

fun kind_of :: "pynum \<Rightarrow> kind" where
  "kind_of (Num k x) = k"

fun val_of :: "pynum \<Rightarrow> fl" where
  "val_of (Num k x) = x"

definition py_int :: "int \<Rightarrow> pynum" where
  "py_int i = Num KInt (Fin (of_int i))"

definition py_float :: "real \<Rightarrow> pynum" where
  "py_float r = Num KFloat (Fin r)"

definition np_float :: "real \<Rightarrow> pynum" where
  "np_float r = Num KNp (Fin r)"

text \<open>\<^verbatim>\<open>np.nan\<close> is a Python float.\<close>

definition np_nan :: pynum where
  "np_nan = Num KFloat NaN"

instantiation pynum :: comm_monoid_add
begin

definition zero_pynum :: pynum where
  "zero_pynum = Num KInt (Fin 0)"

definition plus_pynum :: "pynum \<Rightarrow> pynum \<Rightarrow> pynum" where
  "plus_pynum a b = Num (kjoin (kind_of a) (kind_of b)) (val_of a + val_of b)"

instance
proof
  fix a b c :: pynum
  have kj: "\<And>x y z. kjoin (kjoin x y) z = kjoin x (kjoin y z)"
  proof -
    fix x y z show "kjoin (kjoin x y) z = kjoin x (kjoin y z)"
      by (cases x; cases y; cases z) simp_all
  qed
  have kc: "\<And>x y. kjoin x y = kjoin y x"
  proof -
    fix x y show "kjoin x y = kjoin y x" by (cases x; cases y) simp_all
  qed
  show "a + b + c = a + (b + c)"
    unfolding plus_pynum_def by (simp add: kj add.assoc)
  show "a + b = b + a"
    unfolding plus_pynum_def by (simp add: kc add.commute)
  show "0 + a = a"
    unfolding plus_pynum_def zero_pynum_def
    by (cases a; cases "kind_of a") (simp_all add: zero_fl_def[symmetric])
qed

end

definition py_sub :: "pynum \<Rightarrow> pynum \<Rightarrow> pynum" where
  "py_sub a b = Num (kjoin (kind_of a) (kind_of b)) (val_of a + fl_neg (val_of b))"

definition py_mul :: "pynum \<Rightarrow> pynum \<Rightarrow> pynum" where
  "py_mul a b = Num (kjoin (kind_of a) (kind_of b)) (fl_mul (val_of a) (val_of b))"

text \<open>True division \<^verbatim>\<open>a / b\<close>.\<close>

definition py_truediv :: "pynum \<Rightarrow> pynum \<Rightarrow> py_error + pynum" where
  "py_truediv a b =
     (if kind_of a = KNp \<or> kind_of b = KNp then Inr (Num KNp (fl_div (val_of a) (val_of b)))
      else if val_of b = Fin 0 then Inl ZeroDivisionError
      else Inr (Num KFloat (fl_div (val_of a) (val_of b))))"

definition py_lt :: "pynum \<Rightarrow> pynum \<Rightarrow> bool" where
  "py_lt a b = fl_lt (val_of a) (val_of b)"

definition py_le :: "pynum \<Rightarrow> pynum \<Rightarrow> bool" where
  "py_le a b = fl_le (val_of a) (val_of b)"

text \<open>The built-in \<^verbatim>\<open>sum\<close> starts from the int \<^verbatim>\<open>0\<close>; \<^verbatim>\<open>max\<close> keeps the first item that no
  later item exceeds, and raises on an empty sequence.\<close>

definition py_sum :: "pynum list \<Rightarrow> pynum" where
  "py_sum xs = fold (\<lambda>x acc. acc + x) xs 0"

definition max_empty_msg :: string where
  "max_empty_msg = ''max() arg is an empty sequence''"

fun py_max :: "pynum list \<Rightarrow> py_error + pynum" where
  "py_max [] = Inl (ValueError max_empty_msg)"
| "py_max (x # xs) = Inr (fold (\<lambda>y m. if py_lt m y then y else m) xs x)"

fun py_max_int :: "int list \<Rightarrow> py_error + int" where
  "py_max_int [] = Inl (ValueError max_empty_msg)"
| "py_max_int (x # xs) = Inr (fold (\<lambda>y m. if m < y then y else m) xs x)"

definition py_range :: "int \<Rightarrow> int list" where
  "py_range n = map int [0..<nat n]"

text \<open>The functions of module \<^verbatim>\<open>math\<close> return Python floats and raise \<^verbatim>\<open>ValueError\<close>
  outside their domain.\<close>

definition math_domain_msg :: string where
  "math_domain_msg = ''math domain error''"

fun fl_pow :: "fl \<Rightarrow> nat \<Rightarrow> fl" where
  "fl_pow x 0 = Fin 1"
| "fl_pow x (Suc n) = fl_mul x (fl_pow x n)"

definition math_pow :: "pynum \<Rightarrow> nat \<Rightarrow> pynum" where
  "math_pow x n = Num KFloat (fl_pow (val_of x) n)"

fun fl_log :: "fl \<Rightarrow> py_error + fl" where
  "fl_log (Fin a) = (if a \<le> 0 then Inl (ValueError math_domain_msg) else Inr (Fin (ln a)))"
| "fl_log NaN = Inr NaN"
| "fl_log PInf = Inr PInf"
| "fl_log NInf = Inl (ValueError math_domain_msg)"

definition math_log :: "pynum \<Rightarrow> py_error + pynum" where
  "math_log x = (case fl_log (val_of x) of Inl e \<Rightarrow> Inl e | Inr y \<Rightarrow> Inr (Num KFloat y))"

definition math_sqrt :: "pynum \<Rightarrow> py_error + pynum" where
  "math_sqrt x =
     (if fl_lt (val_of x) (Fin 0) then Inl (ValueError math_domain_msg)
      else Inr (Num KFloat (fl_sqrt (val_of x))))"

text \<open>A loop whose body can raise: the first exception ends it.\<close>

fun fold_err :: "('a \<Rightarrow> 's \<Rightarrow> py_error + 's) \<Rightarrow> 'a list \<Rightarrow> 's \<Rightarrow> py_error + 's" where
  "fold_err f [] s = Inr s"
| "fold_err f (x # xs) s = (case f x s of Inl e \<Rightarrow> Inl e | Inr s' \<Rightarrow> fold_err f xs s')"

subsection \<open>Arrays (numpy and scipy)\<close>

text \<open>
  A data matrix is the list of its rows, all of one length; its entries are finite. The
  number of columns of a matrix without rows is not represented (it is taken as \<open>0\<close>):
  every metric below raises on such a matrix before the number could matter.
\<close>

definition ncols :: "matrix \<Rightarrow> nat" where
  "ncols X = (case X of [] \<Rightarrow> 0 | r # rs \<Rightarrow> length r)"

definition column :: "matrix \<Rightarrow> nat \<Rightarrow> real list" where
  "column X j = map (\<lambda>row. row ! j) X"

text \<open>\<^verbatim>\<open>np.mean\<close> of a vector, of a matrix along axis 0 (one mean per column) and of all
  entries of a matrix. The mean of no numbers is NaN.\<close>

definition np_mean :: "real list \<Rightarrow> fl" where
  "np_mean xs = (if xs = [] then NaN else Fin (sum_list xs / real (length xs)))"

definition np_mean0 :: "nat \<Rightarrow> matrix \<Rightarrow> fl list" where
  "np_mean0 m X = map (\<lambda>j. np_mean (column X j)) [0..<m]"

definition np_mean_all :: "matrix \<Rightarrow> fl" where
  "np_mean_all X = np_mean (concat X)"

text \<open>\<^verbatim>\<open>scipy.spatial.distance\<close>: \<^verbatim>\<open>euclidean\<close> of two vectors (a numpy float), \<^verbatim>\<open>pdist\<close> (the
  distances of the pairs of rows \<open>(0,1), (0,2), \<dots>, (1,2), \<dots>\<close> in this order) and
  \<^verbatim>\<open>cdist\<close> (one row of distances per row of the first matrix).\<close>

definition fl_sq_diff :: "fl \<Rightarrow> fl \<Rightarrow> fl" where
  "fl_sq_diff a b = fl_mul (a + fl_neg b) (a + fl_neg b)"

definition euclidean :: "fl list \<Rightarrow> fl list \<Rightarrow> pynum" where
  "euclidean u v = Num KNp (fl_sqrt (sum_list (map2 fl_sq_diff u v)))"

definition row_dist :: "real list \<Rightarrow> real list \<Rightarrow> real" where
  "row_dist u v = sqrt (sum_list (map2 (\<lambda>a b. (a - b)\<^sup>2) u v))"

fun pdist :: "matrix \<Rightarrow> real list" where
  "pdist [] = []"
| "pdist (r # rs) = map (row_dist r) rs @ pdist rs"

definition cdist :: "matrix \<Rightarrow> matrix \<Rightarrow> real list list" where
  "cdist XA XB = map (\<lambda>a. map (row_dist a) XB) XA"

text \<open>Reading an element and selecting rows by a list of indices; an index outside the
  array raises \<^verbatim>\<open>IndexError\<close>.\<close>

definition np_get :: "'a list \<Rightarrow> nat \<Rightarrow> py_error + 'a" where
  "np_get xs i = (if i < length xs then Inr (xs ! i) else Inl IndexError)"

definition np_rows :: "matrix \<Rightarrow> nat list \<Rightarrow> py_error + matrix" where
  "np_rows X indices =
     (if list_all (\<lambda>t. t < length X) indices then Inr (map (\<lambda>t. X ! t) indices)
      else Inl IndexError)"

text \<open>\<^verbatim>\<open>[t for t, x in enumerate(self.classLabel) if x == i]\<close>\<close>

definition indices_of :: "int list \<Rightarrow> int \<Rightarrow> nat list" where
  "indices_of classLabel i = filter (\<lambda>t. classLabel ! t = i) [0..<length classLabel]"

text \<open>Centring the columns \<open>0, \<dots>, attributes - 1\<close> of a matrix in place, one after the
  other: \<^verbatim>\<open>X[:,j] = X[:,j] - np.mean(X[:,j])\<close>. On a matrix without rows the mean is NaN
  and nothing is written.\<close>

definition center_column :: "nat \<Rightarrow> matrix \<Rightarrow> matrix" where
  "center_column j X =
     (let columnVec = column X j;
          columnCenter = sum_list columnVec / real (length columnVec)
      in map (\<lambda>row. row[j := row ! j - columnCenter]) X)"

definition center_columns :: "nat \<Rightarrow> matrix \<Rightarrow> matrix" where
  "center_columns attributes X = fold center_column [0..<attributes] X"

text \<open>\<^verbatim>\<open>np.dot(np.transpose(X), X)\<close> for a matrix with \<open>attributes\<close> columns, the sum of two
  matrices of one shape, \<^verbatim>\<open>np.zeros((n, n))\<close>, and the determinant (\<^verbatim>\<open>np.linalg.det\<close>, by
  expansion along the first row; the determinant of the matrix without rows is \<open>1\<close>).\<close>

definition gram :: "nat \<Rightarrow> matrix \<Rightarrow> matrix" where
  "gram attributes X =
     map (\<lambda>a. map (\<lambda>b. sum_list (map (\<lambda>row. row ! a * row ! b) X)) [0..<attributes])
       [0..<attributes]"

definition mat_add :: "matrix \<Rightarrow> matrix \<Rightarrow> matrix" where
  "mat_add A B = map2 (\<lambda>ra rb. map2 (+) ra rb) A B"

definition np_zeros :: "nat \<Rightarrow> matrix" where
  "np_zeros n = replicate n (replicate n 0)"

definition drop_col :: "nat \<Rightarrow> 'a list \<Rightarrow> 'a list" where
  "drop_col j row = take j row @ drop (Suc j) row"

function det :: "matrix \<Rightarrow> real" where
  "det [] = 1"
| "det (r # rs) =
     sum_list (map (\<lambda>j. (- 1) ^ j * r ! j * det (map (drop_col j) rs)) [0..<length r])"
  by pat_completeness auto
termination
  by (relation "measure length") auto

subsection \<open>The metrics (validation.py)\<close>

record val_validation =
  dataMatrix :: matrix
  classLabel :: "int list"
  validation :: pynum
  description :: string

text \<open>\<^verbatim>\<open>validation.__init__\<close>\<close>

definition val_init :: "matrix \<Rightarrow> int list \<Rightarrow> val_validation" where
  "val_init data0 labels0 =
     \<lparr>dataMatrix = data0, classLabel = labels0, validation = np_nan, description = []\<rparr>"

text \<open>\<^verbatim>\<open>self.validation = ...; return self.validation\<close>, when the right-hand side may
  raise.\<close>

definition set_validation ::
  "val_validation \<Rightarrow> py_error + pynum \<Rightarrow> (py_error + pynum) \<times> val_validation" where
  "set_validation self r =
     (case r of Inl e \<Rightarrow> (Inl e, self) | Inr x \<Rightarrow> (Inr x, self\<lparr>validation := x\<rparr>))"

text \<open>The two cluster counts: \<^verbatim>\<open>max(self.classLabel)+1\<close> and
  \<^verbatim>\<open>len(np.unique(self.classLabel))\<close>.\<close>

definition numCluster :: "int list \<Rightarrow> py_error + int" where
  "numCluster classLabel0 =
     (case py_max_int classLabel0 of Inl e \<Rightarrow> Inl e | Inr m \<Rightarrow> Inr (m + 1))"

definition numCluster_unique :: "int list \<Rightarrow> int" where
  "numCluster_unique classLabel0 = int (length (np_unique classLabel0))"

text \<open>The loop over the members of a cluster that Ball_Hall, Banfeld_Raferty and
  log_ss_ratio share:
  \<^verbatim>\<open>for member in clusterMember: sumDis=sumDis+math.pow(distance.euclidean(member, clusterCenter),2)\<close>\<close>

definition sum_sq_dist :: "matrix \<Rightarrow> fl list \<Rightarrow> pynum" where
  "sum_sq_dist clusterMember clusterCenter =
     fold (\<lambda>member sumDis. sumDis + math_pow (euclidean (map Fin member) clusterCenter) 2)
       clusterMember 0"

subsubsection \<open>Ball_Hall\<close>

definition Ball_Hall_step :: "matrix \<Rightarrow> int list \<Rightarrow> int \<Rightarrow> pynum \<Rightarrow> py_error + pynum" where
  "Ball_Hall_step X L i sumTotal =
     (let indices = indices_of L i in
      case np_rows X indices of
        Inl e \<Rightarrow> Inl e
      | Inr clusterMember \<Rightarrow>
          (let clusterCenter = np_mean0 (ncols X) clusterMember;
               sumDis = sum_sq_dist clusterMember clusterCenter
           in case py_truediv sumDis (py_int (int (length indices))) of
                Inl e \<Rightarrow> Inl e
              | Inr q \<Rightarrow> Inr (sumTotal + q)))"

definition Ball_Hall :: "val_validation \<Rightarrow> (py_error + pynum) \<times> val_validation" where
  "Ball_Hall self0 =
     (let self = self0\<lparr>description := ''Mean of the mean dispersions across all clusters''\<rparr>;
          n = numCluster_unique (classLabel self)
      in set_validation self
           (case fold_err (Ball_Hall_step (dataMatrix self) (classLabel self)) (py_range n) 0 of
              Inl e \<Rightarrow> Inl e
            | Inr sumTotal \<Rightarrow> py_truediv sumTotal (py_int n)))"

subsubsection \<open>Banfeld_Raferty\<close>

text \<open>The assignment to \<^verbatim>\<open>self.validation\<close> stands inside the \<^verbatim>\<open>else\<close> branch of the loop
  body, so the object is written during the loop and the loop is modelled on the object.
  An iteration that only warns leaves \<^verbatim>\<open>sumTotal\<close> and the object as they are.\<close>

definition Banfeld_Raferty_step :: "matrix \<Rightarrow> int list \<Rightarrow> int \<Rightarrow> pynum \<Rightarrow> py_error + pynum option" where
  "Banfeld_Raferty_step X L i sumTotal =
     (let indices = indices_of L i in
      case np_rows X indices of
        Inl e \<Rightarrow> Inl e
      | Inr clusterMember \<Rightarrow>
          (let clusterCenter = np_mean0 (ncols X) clusterMember;
               sumDis = sum_sq_dist clusterMember clusterCenter
           in case py_truediv sumDis (py_int (int (length indices))) of
                Inl e \<Rightarrow> Inl e
              | Inr q \<Rightarrow>
                  if py_le q (py_int 0) then Inr None
                  else (case math_log q of
                          Inl e \<Rightarrow> Inl e
                        | Inr lg \<Rightarrow> Inr (Some (sumTotal + py_mul (py_int (int (length indices))) lg)))))"

fun Banfeld_Raferty_loop ::
  "int list \<Rightarrow> pynum \<Rightarrow> val_validation \<Rightarrow> (py_error + pynum) \<times> val_validation" where
  "Banfeld_Raferty_loop [] sumTotal self = (Inr (validation self), self)"
| "Banfeld_Raferty_loop (i # rest) sumTotal self =
     (case Banfeld_Raferty_step (dataMatrix self) (classLabel self) i sumTotal of
        Inl e \<Rightarrow> (Inl e, self)
      | Inr None \<Rightarrow> Banfeld_Raferty_loop rest sumTotal self
      | Inr (Some sumTotal') \<Rightarrow>
          Banfeld_Raferty_loop rest sumTotal' (self\<lparr>validation := sumTotal'\<rparr>))"

definition Banfeld_Raferty :: "val_validation \<Rightarrow> (py_error + pynum) \<times> val_validation" where
  "Banfeld_Raferty self0 =
     (let self = self0\<lparr>description :=
            ''Weighted sum of the logarithms of the traces of the variance-covariance matrix of each cluster''\<rparr>
      in case numCluster (classLabel self) of
           Inl e \<Rightarrow> (Inl e, self)
         | Inr n \<Rightarrow> Banfeld_Raferty_loop (py_range n) 0 self)"

subsubsection \<open>Baker_Hubert_Gamma and g_plus_index\<close>

text \<open>\<^verbatim>\<open>temp\<close>: one row \<open>(label, 0)\<close> per object, so that \<^verbatim>\<open>vecB = pdist(temp)\<close> holds the
  absolute differences of the labels of the pairs.\<close>

definition label_rows :: "int list \<Rightarrow> matrix" where
  "label_rows L = map (\<lambda>x. [real_of_int x, 0]) L"

text \<open>\<^verbatim>\<open>vecB[i] > 0 and vecB[j] == 0\<close> and \<^verbatim>\<open>vecB[i] == 0 and vecB[j] > 0\<close>: the second
  operand is read only when the first holds.\<close>

definition heter_homo :: "real list \<Rightarrow> nat \<Rightarrow> nat \<Rightarrow> py_error + bool" where
  "heter_homo vecB i j =
     (case np_get vecB i of
        Inl e \<Rightarrow> Inl e
      | Inr bi \<Rightarrow>
          if bi > 0 then (case np_get vecB j of Inl e \<Rightarrow> Inl e | Inr bj \<Rightarrow> Inr (bj = 0))
          else Inr False)"

definition homo_heter :: "real list \<Rightarrow> nat \<Rightarrow> nat \<Rightarrow> py_error + bool" where
  "homo_heter vecB i j =
     (case np_get vecB i of
        Inl e \<Rightarrow> Inl e
      | Inr bi \<Rightarrow>
          if bi = 0 then (case np_get vecB j of Inl e \<Rightarrow> Inl e | Inr bj \<Rightarrow> Inr (bj > 0))
          else Inr False)"

definition Baker_Hubert_Gamma_pair ::
  "real list \<Rightarrow> real list \<Rightarrow> nat \<Rightarrow> nat \<Rightarrow> int \<times> int \<Rightarrow> py_error + int \<times> int" where
  "Baker_Hubert_Gamma_pair pairDis vecB i j st =
     (case heter_homo vecB i j of
        Inl e \<Rightarrow> Inl e
      | Inr c1 \<Rightarrow>
          (let st1 =
                 (if c1 then
                    (let splus = (if pairDis ! i < pairDis ! j then fst st + 1 else fst st);
                         sminus = (if pairDis ! i > vecB ! j then snd st + 1 else snd st)
                     in (splus, sminus))
                  else st)
           in case homo_heter vecB i j of
                Inl e \<Rightarrow> Inl e
              | Inr c2 \<Rightarrow>
                  Inr (if c2 then
                         (let splus = (if pairDis ! j < pairDis ! i then fst st1 + 1 else fst st1);
                              sminus = (if pairDis ! j > vecB ! i then snd st1 + 1 else snd st1)
                          in (splus, sminus))
                       else st1)))"

definition Baker_Hubert_Gamma :: "val_validation \<Rightarrow> (py_error + pynum) \<times> val_validation" where
  "Baker_Hubert_Gamma self0 =
     (let self = self0\<lparr>description := ''Gamma Index: a measure of compactness''\<rparr>;
          pairDis = pdist (dataMatrix self);
          numPair = length pairDis;
          vecB = pdist (label_rows (classLabel self))
      in set_validation self
           (case fold_err
                   (\<lambda>i. fold_err (Baker_Hubert_Gamma_pair pairDis vecB i) [i + 1..<numPair])
                   [0..<numPair - 1] (0, 0) of
              Inl e \<Rightarrow> Inl e
            | Inr (splus, sminus) \<Rightarrow> py_truediv (py_int (splus - sminus)) (py_int (splus + sminus))))"

definition g_plus_index_pair ::
  "real list \<Rightarrow> real list \<Rightarrow> nat \<Rightarrow> nat \<Rightarrow> int \<Rightarrow> py_error + int" where
  "g_plus_index_pair pairDis vecB i j sminus =
     (case heter_homo vecB i j of
        Inl e \<Rightarrow> Inl e
      | Inr c1 \<Rightarrow>
          (let sminus1 = (if c1 \<and> pairDis ! i > vecB ! j then sminus + 1 else sminus)
           in case homo_heter vecB i j of
                Inl e \<Rightarrow> Inl e
              | Inr c2 \<Rightarrow> Inr (if c2 \<and> pairDis ! j > vecB ! i then sminus1 + 1 else sminus1)))"

definition g_plus_index :: "val_validation \<Rightarrow> (py_error + pynum) \<times> val_validation" where
  "g_plus_index self0 =
     (let self = self0\<lparr>description := ''The G_plus index, a measure of connectedness''\<rparr>;
          pairDis = pdist (dataMatrix self);
          numPair = length pairDis;
          vecB = pdist (label_rows (classLabel self))
      in set_validation self
           (case fold_err
                   (\<lambda>i. fold_err (g_plus_index_pair pairDis vecB i) [i + 1..<numPair])
                   [0..<numPair - 1] 0 of
              Inl e \<Rightarrow> Inl e
            | Inr sminus \<Rightarrow>
                py_truediv (py_int (2 * sminus)) (py_int (int numPair * (int numPair - 1)))))"

subsubsection \<open>det_ratio, ksq_detw_index and log_det_ratio\<close>

text \<open>One pass of the loop that accumulates the within-cluster scatter matrix \<^verbatim>\<open>wg\<close>. The
  selection \<^verbatim>\<open>self.dataMatrix[indices,:]\<close> is a copy, and the columns of the copy are
  centred.\<close>

definition scatter_step :: "nat \<Rightarrow> matrix \<Rightarrow> int list \<Rightarrow> int \<Rightarrow> matrix \<Rightarrow> py_error + matrix" where
  "scatter_step attributes X L i wg =
     (case np_rows X (indices_of L i) of
        Inl e \<Rightarrow> Inl e
      | Inr clusterMember \<Rightarrow>
          (let xCluster = center_columns attributes clusterMember
           in Inr (mat_add wg (gram attributes xCluster))))"

text \<open>In \<^verbatim>\<open>det_ratio\<close> the name \<^verbatim>\<open>xData\<close> is bound to \<^verbatim>\<open>self.dataMatrix\<close> itself, not to a
  copy: the second loop centres the columns of the stored matrix.\<close>

definition det_ratio :: "val_validation \<Rightarrow> (py_error + pynum) \<times> val_validation" where
  "det_ratio self0 =
     (let self = self0\<lparr>description := ''Determinant ratio, a measure of connectedness''\<rparr>
      in case np_get (dataMatrix self) 0 of
           Inl e \<Rightarrow> (Inl e, self)
         | Inr row0 \<Rightarrow>
             (let attributes = length row0 in
              case numCluster (classLabel self) of
                Inl e \<Rightarrow> (Inl e, self)
              | Inr n \<Rightarrow>
                  (case fold_err (scatter_step attributes (dataMatrix self) (classLabel self))
                          (py_range n) (np_zeros attributes) of
                     Inl e \<Rightarrow> (Inl e, self)
                   | Inr wg \<Rightarrow>
                       (let xData = center_columns attributes (dataMatrix self);
                            self = self\<lparr>dataMatrix := xData\<rparr>;
                            t = gram attributes xData
                        in set_validation self
                             (py_truediv (np_float (det t)) (np_float (det wg)))))))"

definition ksq_detw_index :: "val_validation \<Rightarrow> (py_error + pynum) \<times> val_validation" where
  "ksq_detw_index self0 =
     (let self = self0\<lparr>description := ''The Ksq_DetW index, a measure of connectedness''\<rparr>
      in case np_get (dataMatrix self) 0 of
           Inl e \<Rightarrow> (Inl e, self)
         | Inr row0 \<Rightarrow>
             (let attributes = length row0 in
              case numCluster (classLabel self) of
                Inl e \<Rightarrow> (Inl e, self)
              | Inr n \<Rightarrow>
                  (case fold_err (scatter_step attributes (dataMatrix self) (classLabel self))
                          (py_range n) (np_zeros attributes) of
                     Inl e \<Rightarrow> (Inl e, self)
                   | Inr wg \<Rightarrow>
                       set_validation self
                         (Inr (py_mul (math_pow (py_int n) 2) (np_float (det wg)))))))"

definition log_det_ratio :: "val_validation \<Rightarrow> (py_error + pynum) \<times> val_validation" where
  "log_det_ratio self0 =
     (let self = self0\<lparr>description :=
            ''The log determinant ratio index, a measure of connectedness''\<rparr>;
          numObj = length (classLabel self)
      in case det_ratio self of
           (Inl e, self1) \<Rightarrow> (Inl e, self1)
         | (Inr r, self1) \<Rightarrow>
             set_validation self1
               (case math_log r of
                  Inl e \<Rightarrow> Inl e
                | Inr lg \<Rightarrow> Inr (py_mul (py_int (int numObj)) lg)))"

subsubsection \<open>c_index\<close>

definition c_index_step :: "matrix \<Rightarrow> int list \<Rightarrow> int \<Rightarrow> pynum \<times> nat \<Rightarrow> py_error + pynum \<times> nat" where
  "c_index_step X L i st =
     (case np_rows X (indices_of L i) of
        Inl e \<Rightarrow> Inl e
      | Inr clusterMember \<Rightarrow>
          (let list_clusterDis = pdist clusterMember
           in Inr (fst st + py_sum (map np_float list_clusterDis),
                   snd st + length list_clusterDis)))"

definition c_index :: "val_validation \<Rightarrow> (py_error + pynum) \<times> val_validation" where
  "c_index self0 =
     (let self = self0\<lparr>description := ''The C-Index, a measure of cluster compactness''\<rparr>
      in case numCluster (classLabel self) of
           Inl e \<Rightarrow> (Inl e, self)
         | Inr n \<Rightarrow>
             (case fold_err (c_index_step (dataMatrix self) (classLabel self)) (py_range n) (0, 0) of
                Inl e \<Rightarrow> (Inl e, self)
              | Inr (sw, nw) \<Rightarrow>
                  (let list_dataDis = pdist (dataMatrix self);
                       smin = py_sum (map np_float (take nw (sort list_dataDis)));
                       smax = py_sum (map np_float (take nw (rev (sort list_dataDis))))
                   in set_validation self (py_truediv (py_sub sw smin) (py_sub smax smin)))))"

subsubsection \<open>log_ss_ratio\<close>

definition log_ss_ratio_step ::
  "matrix \<Rightarrow> int list \<Rightarrow> fl list \<Rightarrow> int \<Rightarrow> pynum \<times> pynum \<Rightarrow> py_error + pynum \<times> pynum" where
  "log_ss_ratio_step X L dataCenter i st =
     (let indices = indices_of L i in
      case np_rows X indices of
        Inl e \<Rightarrow> Inl e
      | Inr clusterMember \<Rightarrow>
          (let clusterCenter = np_mean0 (ncols X) clusterMember;
               bgss = fst st + py_mul (py_int (int (length indices)))
                                 (math_pow (euclidean clusterCenter dataCenter) 2);
               sumTemp = sum_sq_dist clusterMember clusterCenter;
               wgss = snd st + sumTemp
           in Inr (bgss, wgss)))"

definition log_ss_ratio :: "val_validation \<Rightarrow> (py_error + pynum) \<times> val_validation" where
  "log_ss_ratio self0 =
     (let self = self0\<lparr>description := ''The log ss ratio, a measure of connectedness''\<rparr>
      in case numCluster (classLabel self) of
           Inl e \<Rightarrow> (Inl e, self)
         | Inr n \<Rightarrow>
             (let dataCenter = np_mean0 (ncols (dataMatrix self)) (dataMatrix self) in
              case fold_err (log_ss_ratio_step (dataMatrix self) (classLabel self) dataCenter)
                      (py_range n) (0, 0) of
                Inl e \<Rightarrow> (Inl e, self)
              | Inr (bgss, wgss) \<Rightarrow>
                  set_validation self
                    (case py_truediv bgss wgss of Inl e \<Rightarrow> Inl e | Inr q \<Rightarrow> math_log q)))"

subsubsection \<open>McClain_Rao and point_biserial\<close>

text \<open>The two metrics run the same loop over the clusters: the within-cluster distances go
  to \<^verbatim>\<open>sw\<close> and \<^verbatim>\<open>nw\<close>, and for every later cluster \<open>j > i\<close> the distances between the two
  clusters go to \<^verbatim>\<open>sb\<close>. The state is \<open>(sw, sb, nw)\<close>.\<close>

definition between_step ::
  "matrix \<Rightarrow> int list \<Rightarrow> int \<Rightarrow> matrix \<Rightarrow> int \<Rightarrow> pynum \<Rightarrow> py_error + pynum" where
  "between_step X L i clusterMember j sb =
     (if j > i then
        (case np_rows X (indices_of L j) of
           Inl e \<Rightarrow> Inl e
         | Inr clusterMember2 \<Rightarrow>
             (let betweenDis = cdist clusterMember clusterMember2
              in Inr (sb + py_sum (map np_float (concat betweenDis)))))
      else Inr sb)"

definition within_between_step ::
  "matrix \<Rightarrow> int list \<Rightarrow> int \<Rightarrow> int \<Rightarrow> pynum \<times> pynum \<times> nat \<Rightarrow> py_error + pynum \<times> pynum \<times> nat" where
  "within_between_step X L n i st =
     (case st of (sw, sb, nw) \<Rightarrow>
      (case np_rows X (indices_of L i) of
         Inl e \<Rightarrow> Inl e
       | Inr clusterMember \<Rightarrow>
           (let pairDis = pdist clusterMember;
                sw = sw + py_sum (map np_float pairDis);
                nw = nw + length pairDis
            in case fold_err (between_step X L i clusterMember) (py_range n) sb of
                 Inl e \<Rightarrow> Inl e
               | Inr sb \<Rightarrow> Inr (sw, sb, nw))))"

definition McClain_Rao :: "val_validation \<Rightarrow> (py_error + pynum) \<times> val_validation" where
  "McClain_Rao self0 =
     (let self = self0\<lparr>description := ''The McClain-Rao Index, a measure of compactness''\<rparr>;
          numObj = int (length (classLabel self))
      in case numCluster (classLabel self) of
           Inl e \<Rightarrow> (Inl e, self)
         | Inr n \<Rightarrow>
             (case fold_err (within_between_step (dataMatrix self) (classLabel self) n)
                     (py_range n) (0, 0, 0) of
                Inl e \<Rightarrow> (Inl e, self)
              | Inr (sw, sb, nw) \<Rightarrow>
                  set_validation self
                    (case py_truediv (py_int (numObj * (numObj - 1))) (py_int 2) of
                       Inl e \<Rightarrow> Inl e
                     | Inr h \<Rightarrow>
                         (let nb = py_sub h (py_int (int nw))
                          in py_truediv (py_mul nb sw) (py_mul (py_int (int nw)) sb)))))"

definition point_biserial :: "val_validation \<Rightarrow> (py_error + pynum) \<times> val_validation" where
  "point_biserial self0 =
     (let self = self0\<lparr>description := ''The Point-Biserial index, a measure of connectedness''\<rparr>;
          numObj = int (length (classLabel self))
      in case numCluster (classLabel self) of
           Inl e \<Rightarrow> (Inl e, self)
         | Inr n \<Rightarrow>
             (case py_truediv (py_int (numObj * (numObj - 1))) (py_int 2) of
                Inl e \<Rightarrow> (Inl e, self)
              | Inr nt \<Rightarrow>
                  (case fold_err (within_between_step (dataMatrix self) (classLabel self) n)
                          (py_range n) (0, 0, 0) of
                     Inl e \<Rightarrow> (Inl e, self)
                   | Inr (sw, sb, nw) \<Rightarrow>
                       (let nb = py_sub nt (py_int (int nw))
                        in set_validation self
                             (case py_truediv sw (py_int (int nw)) of
                                Inl e \<Rightarrow> Inl e
                              | Inr a \<Rightarrow>
                                  (case py_truediv sb nb of
                                     Inl e \<Rightarrow> Inl e
                                   | Inr b \<Rightarrow>
                                       (case math_sqrt (py_mul (py_int (int nw)) nb) of
                                          Inl e \<Rightarrow> Inl e
                                        | Inr c \<Rightarrow> py_truediv (py_mul (py_sub a b) c) nt)))))))"

subsubsection \<open>PBM_index\<close>

definition PBM_index_member ::
  "fl list \<Rightarrow> fl list \<Rightarrow> real list \<Rightarrow> pynum \<times> pynum \<Rightarrow> pynum \<times> pynum" where
  "PBM_index_member clusterCenter dataCenter member st =
     (fst st + euclidean (map Fin member) clusterCenter,
      snd st + euclidean (map Fin member) dataCenter)"

definition PBM_index_step ::
  "matrix \<Rightarrow> int list \<Rightarrow> fl list \<Rightarrow> int \<Rightarrow> (pynum \<times> pynum) \<times> pynum list \<Rightarrow>
   py_error + (pynum \<times> pynum) \<times> pynum list" where
  "PBM_index_step X L dataCenter i st =
     (case np_rows X (indices_of L i) of
        Inl e \<Rightarrow> Inl e
      | Inr clusterMember \<Rightarrow>
          (let clusterCenter = np_mean0 (ncols X) clusterMember;
               list_centerDis = snd st @ [euclidean dataCenter clusterCenter]
           in Inr (fold (PBM_index_member clusterCenter dataCenter) clusterMember (fst st),
                   list_centerDis)))"

definition PBM_index :: "val_validation \<Rightarrow> (py_error + pynum) \<times> val_validation" where
  "PBM_index self0 =
     (let self = self0\<lparr>description := ''The PBM index, a measure of compactness''\<rparr>
      in case numCluster (classLabel self) of
           Inl e \<Rightarrow> (Inl e, self)
         | Inr n \<Rightarrow>
             (let dataCenter = np_mean0 (ncols (dataMatrix self)) (dataMatrix self) in
              case fold_err (PBM_index_step (dataMatrix self) (classLabel self) dataCenter)
                      (py_range n) ((0, 0), []) of
                Inl e \<Rightarrow> (Inl e, self)
              | Inr ((ew, et), list_centerDis) \<Rightarrow>
                  (case py_max list_centerDis of
                     Inl e \<Rightarrow> (Inl e, self)
                   | Inr db \<Rightarrow>
                       set_validation self
                         (case py_truediv (py_mul et db) (py_mul (py_int n) ew) of
                            Inl e \<Rightarrow> Inl e
                          | Inr q \<Rightarrow> Inr (math_pow q 2)))))"

subsubsection \<open>Ratkowsky_Lance\<close>

text \<open>\<^verbatim>\<open>centerCluster\<close> is the mean of all entries of the rows of the cluster (the source
  takes \<^verbatim>\<open>np.mean\<close> of the selected rows, not of their column \<open>i\<close>).\<close>

definition Ratkowsky_Lance_cluster ::
  "matrix \<Rightarrow> int list \<Rightarrow> pynum \<Rightarrow> int \<Rightarrow> pynum \<Rightarrow> py_error + pynum" where
  "Ratkowsky_Lance_cluster X L columnCenter j bgssj =
     (let indices = indices_of L j in
      case np_rows X indices of
        Inl e \<Rightarrow> Inl e
      | Inr columnCluster \<Rightarrow>
          (let centerCluster = Num KNp (np_mean_all columnCluster)
           in Inr (bgssj + py_mul (py_int (int (length indices)))
                             (math_pow (py_sub centerCluster columnCenter) 2))))"

definition Ratkowsky_Lance_attribute ::
  "matrix \<Rightarrow> int list \<Rightarrow> int \<Rightarrow> nat \<Rightarrow> pynum list \<Rightarrow> py_error + pynum list" where
  "Ratkowsky_Lance_attribute X L n i list_divide =
     (let columnVec = column X i;
          columnCenter = Num KNp (np_mean columnVec)
      in case fold_err (Ratkowsky_Lance_cluster X L columnCenter) (py_range n) 0 of
           Inl e \<Rightarrow> Inl e
         | Inr bgssj \<Rightarrow>
             (let tssj = fold (\<lambda>member tssj.
                                 tssj + math_pow (py_sub (np_float member) columnCenter) 2)
                           columnVec 0
              in case py_truediv bgssj tssj of
                   Inl e \<Rightarrow> Inl e
                 | Inr q \<Rightarrow> Inr (list_divide @ [q])))"

definition Ratkowsky_Lance :: "val_validation \<Rightarrow> (py_error + pynum) \<times> val_validation" where
  "Ratkowsky_Lance self0 =
     (let self = self0\<lparr>description := ''The Ratkowsky-Lance index, a measure of compactness''\<rparr>
      in case np_get (dataMatrix self) 0 of
           Inl e \<Rightarrow> (Inl e, self)
         | Inr row0 \<Rightarrow>
             (let attributes = length row0 in
              case numCluster (classLabel self) of
                Inl e \<Rightarrow> (Inl e, self)
              | Inr n \<Rightarrow>
                  (case fold_err (Ratkowsky_Lance_attribute (dataMatrix self) (classLabel self) n)
                          [0..<attributes] [] of
                     Inl e \<Rightarrow> (Inl e, self)
                   | Inr list_divide \<Rightarrow>
                       set_validation self
                         (case py_truediv (py_sum list_divide) (py_int (int attributes)) of
                            Inl e \<Rightarrow> Inl e
                          | Inr r \<Rightarrow>
                              (case py_truediv r (py_int n) of
                                 Inl e \<Rightarrow> Inl e
                               | Inr q \<Rightarrow> math_sqrt q)))))"

subsubsection \<open>silhouette\<close>

text \<open>\<^verbatim>\<open>silhouette\<close> hands the data and the labels to \<^verbatim>\<open>sklearn.metrics.silhouette_score\<close>,
  which is not code of this repository: the library function is a parameter.\<close>

type_synonym silhouette_score = "matrix \<Rightarrow> int list \<Rightarrow> py_error + pynum"

definition silhouette ::
  "silhouette_score \<Rightarrow> val_validation \<Rightarrow> (py_error + pynum) \<times> val_validation" where
  "silhouette score self0 =
     (let self = self0\<lparr>description :=
            ''Silhouette: A combination of connectedness and compactness that measures within versus to the nearest neighbor outside a cluster. A smaller value, the better the solution''\<rparr>
      in set_validation self (score (dataMatrix self) (classLabel self)))"

subsection \<open>The validation container (openensembles.py)\<close>

text \<open>
  \<^verbatim>\<open>validation_metrics_available\<close> lists the callable attributes of a metric object whose
  names do not start with two underscores, without \<^verbatim>\<open>validation_metrics_available\<close>
  itself, in the order of \<^verbatim>\<open>dir\<close> (sorted: capitals first). \<^verbatim>\<open>getattr\<close> finds the method of
  a name.
\<close>

definition metric_table ::
  "silhouette_score \<Rightarrow> (string, val_validation \<Rightarrow> (py_error + pynum) \<times> val_validation) dict" where
  "metric_table score =
     [(''Baker_Hubert_Gamma'', Baker_Hubert_Gamma),
      (''Ball_Hall'', Ball_Hall),
      (''Banfeld_Raferty'', Banfeld_Raferty),
      (''McClain_Rao'', McClain_Rao),
      (''PBM_index'', PBM_index),
      (''Ratkowsky_Lance'', Ratkowsky_Lance),
      (''c_index'', c_index),
      (''det_ratio'', det_ratio),
      (''g_plus_index'', g_plus_index),
      (''ksq_detw_index'', ksq_detw_index),
      (''log_det_ratio'', log_det_ratio),
      (''log_ss_ratio'', log_ss_ratio),
      (''point_biserial'', point_biserial),
      (''silhouette'', silhouette score)]"

definition validation_metrics_available :: "string list" where
  "validation_metrics_available =
     [''Baker_Hubert_Gamma'', ''Ball_Hall'', ''Banfeld_Raferty'', ''McClain_Rao'', ''PBM_index'',
      ''Ratkowsky_Lance'', ''c_index'', ''det_ratio'', ''g_plus_index'', ''ksq_detw_index'',
      ''log_det_ratio'', ''log_ss_ratio'', ''point_biserial'', ''silhouette'']"

definition getattr_metric ::
  "silhouette_score \<Rightarrow> string \<Rightarrow>
   py_error + (val_validation \<Rightarrow> (py_error + pynum) \<times> val_validation)" where
  "getattr_metric score name =
     (case map_of (metric_table score) name of
        None \<Rightarrow> Inl (AttributeError name)
      | Some func \<Rightarrow> Inr func)"

text \<open>Class \<^verbatim>\<open>validation\<close> of \<^verbatim>\<open>openensembles.py\<close>. Its fields carry the prefix \<open>v_\<close> here,
  since \<^verbatim>\<open>validation\<close> and \<^verbatim>\<open>description\<close> are also fields of the metric object. The data
  object reached through \<^verbatim>\<open>cObj\<close> is a value of its own in this model.\<close>

record oe_validation =
  v_dataObj :: data
  v_cObj :: cluster
  v_validation :: "(string, pynum) dict"
  v_source_name :: "(string, string) dict"
  v_cluster_name :: "(string, string) dict"
  v_description :: "(string, string) dict"

definition oe_validation_init :: "data \<Rightarrow> cluster \<Rightarrow> oe_validation" where
  "oe_validation_init d c =
     \<lparr>v_dataObj = d, v_cObj = c, v_validation = [], v_source_name = [], v_cluster_name = [],
      v_description = []\<rparr>"

definition oe_validation_metrics_available :: "oe_validation \<Rightarrow> py_error + string list" where
  "oe_validation_metrics_available self =
     (case dict_get (D (v_dataObj self)) ''parent'' of
        Inl e \<Rightarrow> Inl e
      | Inr parent \<Rightarrow> Inr validation_metrics_available)"

text \<open>The text of a list of strings, as \<^verbatim>\<open>%s\<close> prints it.\<close>

definition py_repr_str :: "string \<Rightarrow> string" where
  "py_repr_str x = [CHR 0x27] @ x @ [CHR 0x27]"

fun py_join :: "string \<Rightarrow> string list \<Rightarrow> string" where
  "py_join sep [] = []"
| "py_join sep [x] = x"
| "py_join sep (x # y # ys) = x @ sep @ py_join sep (y # ys)"

definition py_repr_list :: "string list \<Rightarrow> string" where
  "py_repr_list xs = ''['' @ py_join '', '' (map py_repr_str xs) @ '']''"

definition calculate_source_msg :: "string \<Rightarrow> string" where
  "calculate_source_msg source_name =
     ''ERROR: the source you requested for validation does not exist by that name '' @ source_name"

definition calculate_cluster_msg :: "string \<Rightarrow> string" where
  "calculate_cluster_msg source_name =
     ''ERROR: the clustering solution you requested for validation does not exist by the name ''
       @ source_name"

definition calculate_metric_msg :: "string list \<Rightarrow> string" where
  "calculate_metric_msg names =
     ''The validation metric you requested does not exist, currently the following are supported ''
       @ py_repr_list names"

definition calculate_output_name :: "string \<Rightarrow> string \<Rightarrow> string \<Rightarrow> string" where
  "calculate_output_name validation_name cluster_name source_name =
     validation_name @ ''_'' @ source_name @ ''_'' @ cluster_name"

text \<open>
  \<^verbatim>\<open>calculate\<close>. The metric object is built on the stored matrix itself, so what a metric
  writes to its \<^verbatim>\<open>dataMatrix\<close> is written to \<^verbatim>\<open>self.dataObj.D[source_name]\<close>. The call
  returns the key, or \<^verbatim>\<open>None\<close> (after a warning) when the key is already there.
\<close>

definition calculate ::
  "silhouette_score \<Rightarrow> oe_validation \<Rightarrow> string \<Rightarrow> string \<Rightarrow> string \<Rightarrow>
   (py_error + string option) \<times> oe_validation" where
  "calculate score self validation_name cluster_name source_name =
     (let output_name = calculate_output_name validation_name cluster_name source_name in
      if dict_contains (v_validation self) output_name then (Inr None, self)
      else if \<not> dict_contains (D (v_dataObj self)) source_name then
        (Inl (ValueError (calculate_source_msg source_name)), self)
      else if \<not> dict_contains (labels (v_cObj self)) cluster_name then
        (Inl (ValueError (calculate_cluster_msg source_name)), self)
      else
        (case oe_validation_metrics_available self of
           Inl e \<Rightarrow> (Inl e, self)
         | Inr FCN_DICT \<Rightarrow>
             if validation_name \<notin> set FCN_DICT then
               (Inl (ValueError (calculate_metric_msg FCN_DICT)), self)
             else
               (case dict_get (D (v_dataObj self)) source_name of
                  Inl e \<Rightarrow> (Inl e, self)
                | Inr X \<Rightarrow>
                    (case dict_get (labels (v_cObj self)) cluster_name of
                       Inl e \<Rightarrow> (Inl e, self)
                     | Inr L \<Rightarrow>
                         (case getattr_metric score validation_name of
                            Inl e \<Rightarrow> (Inl e, self)
                          | Inr func \<Rightarrow>
                              (case func (val_init X L) of
                                 (r, v) \<Rightarrow>
                                   (let self1 = self\<lparr>v_dataObj := (v_dataObj self)
                                          \<lparr>D := dict_set (D (v_dataObj self)) source_name (dataMatrix v)\<rparr>\<rparr>
                                    in case r of
                                         Inl e \<Rightarrow> (Inl e, self1)
                                       | Inr x \<Rightarrow>
                                           (Inr (Some output_name),
                                            self1\<lparr>v_validation :=
                                                     dict_set (v_validation self1) output_name (validation v),
                                                   v_description :=
                                                     dict_set (v_description self1) output_name (description v),
                                                   v_source_name :=
                                                     dict_set (v_source_name self1) output_name source_name,
                                                   v_cluster_name :=
                                                     dict_set (v_cluster_name self1) output_name cluster_name\<rparr>))))))))"

subsection \<open>Notions used in the statements\<close>

text \<open>A solution \<open>name\<close> has the parameter \<open>field\<close>; its stored value for \<open>field\<close> equals
  \<open>v\<close> (Python's \<^verbatim>\<open>==\<close>).\<close>

definition has_field :: "cluster \<Rightarrow> string \<Rightarrow> string \<Rightarrow> bool" where
  "has_field self field name =
     (case map_of (params self) name of None \<Rightarrow> False | Some p \<Rightarrow> map_of p field \<noteq> None)"

definition field_equals :: "cluster \<Rightarrow> string \<Rightarrow> pyval \<Rightarrow> string \<Rightarrow> bool" where
  "field_equals self field v name =
     (case map_of (params self) name of
        None \<Rightarrow> False
      | Some p \<Rightarrow> (case map_of p field of None \<Rightarrow> False | Some w \<Rightarrow> py_eq w v))"

text \<open>The five dictionaries of a cluster object hold the same solution names: every
  method of the class that stores a solution writes all five under one name.\<close>

definition same_keys :: "cluster \<Rightarrow> bool" where
  "same_keys self =
     (set (dict_keys (data_source self)) = set (dict_keys (labels self))
    \<and> set (dict_keys (params self)) = set (dict_keys (labels self))
    \<and> set (dict_keys (clusterNumbers self)) = set (dict_keys (labels self))
    \<and> set (dict_keys (algorithms self)) = set (dict_keys (labels self)))"

definition same_entry :: "cluster \<Rightarrow> cluster \<Rightarrow> string \<Rightarrow> bool" where
  "same_entry self c name =
     (map_of (labels c) name = map_of (labels self) name
    \<and> map_of (data_source c) name = map_of (data_source self) name
    \<and> map_of (params c) name = map_of (params self) name
    \<and> map_of (clusterNumbers c) name = map_of (clusterNumbers self) name
    \<and> map_of (algorithms c) name = map_of (algorithms self) name)"

text \<open>\<open>c\<close> is the slice of \<open>self\<close> by \<open>names\<close>: the same data object, exactly the given
  names in each dictionary, each entry that of \<open>self\<close>.\<close>

definition slice_of :: "cluster \<Rightarrow> string list \<Rightarrow> cluster \<Rightarrow> bool" where
  "slice_of self names c =
     (dataObj c = dataObj self
    \<and> set (dict_keys (labels c)) = set names
    \<and> set (dict_keys (data_source c)) = set names
    \<and> set (dict_keys (params c)) = set names
    \<and> set (dict_keys (clusterNumbers c)) = set names
    \<and> set (dict_keys (algorithms c)) = set names
    \<and> list_all (same_entry self c) names)"

text \<open>The four result dictionaries of two validation containers are equal.\<close>

definition same_results :: "oe_validation \<Rightarrow> oe_validation \<Rightarrow> bool" where
  "same_results a b =
     (v_validation a = v_validation b \<and> v_description a = v_description b
    \<and> v_source_name a = v_source_name b \<and> v_cluster_name a = v_cluster_name b)"

text \<open>Two distances are both zero or both positive.\<close>

definition same_zeros :: "real \<Rightarrow> real \<Rightarrow> bool" where
  "same_zeros x y = ((x = 0) = (y = 0) \<and> 0 \<le> x \<and> 0 \<le> y)"

text \<open>Every row of a matrix has the same length.\<close>

definition rectangular :: "matrix \<Rightarrow> bool" where
  "rectangular X = list_all (\<lambda>row. length row = ncols X) X"

text \<open>The Ball-Hall index as a formula: the objects of cluster \<open>i\<close>, the centroid of a set
  of objects, the squared distance of an object to it, and the mean over the clusters of
  the mean squared distance.\<close>

definition cluster_set :: "int list \<Rightarrow> int \<Rightarrow> nat set" where
  "cluster_set L i = {t. t < length L \<and> L ! t = i}"

definition centroid :: "matrix \<Rightarrow> nat set \<Rightarrow> nat \<Rightarrow> real" where
  "centroid X C k = (\<Sum>t\<in>C. X ! t ! k) / real (card C)"

definition sq_dist_centroid :: "matrix \<Rightarrow> nat set \<Rightarrow> nat \<Rightarrow> real" where
  "sq_dist_centroid X C t = (\<Sum>k<ncols X. (X ! t ! k - centroid X C k)\<^sup>2)"

definition Ball_Hall_formula :: "matrix \<Rightarrow> int list \<Rightarrow> nat \<Rightarrow> real" where
  "Ball_Hall_formula X L K =
     (1 / real K) *
     (\<Sum>i<K. (1 / real (card (cluster_set L (int i)))) *
              (\<Sum>t\<in>cluster_set L (int i). sq_dist_centroid X (cluster_set L (int i)) t))"

text \<open>An example: three objects with one feature, two clustering solutions, and a
  validation container over them.\<close>

definition ex_cluster :: cluster where
  "ex_cluster =
     \<lparr>dataObj = \<lparr>D = [(''parent'', [[0], [1], [5]])]\<rparr>,
      labels = [(''km2'', [0, 0, 1]), (''hc'', [0, 1, 1])],
      data_source = [(''km2'', ''parent''), (''hc'', ''parent'')],
      params = [(''km2'', [(''K'', PInt 2)]),
                (''hc'', [(''K'', PInt 2), (''linkage'', PStr ''ward'')])],
      algorithms = [(''km2'', ''kmeans''), (''hc'', ''agglomerative'')],
      clusterNumbers = [(''km2'', [0, 1]), (''hc'', [0, 1])]\<rparr>"

definition ex_validation :: oe_validation where
  "ex_validation = oe_validation_init (dataObj ex_cluster) ex_cluster"

section \<open>Properties\<close>

subsection \<open>Evaluation and basic facts\<close>

lemmas num_defs = py_truediv_def py_int_def py_float_def np_float_def py_sub_def py_mul_def
  py_sum_def zero_pynum_def plus_pynum_def zero_fl_def plus_fl_def math_pow_def math_log_def
  math_sqrt_def py_lt_def py_le_def fl_inf_def fl_eq_def fl_le_def np_nan_def

lemmas arr_defs = ncols_def column_def np_mean_def np_mean0_def np_mean_all_def euclidean_def
  fl_sq_diff_def row_dist_def cdist_def np_get_def np_rows_def indices_of_def center_column_def
  center_columns_def gram_def mat_add_def np_zeros_def drop_col_def label_rows_def
  numCluster_def numCluster_unique_def np_unique_def py_range_def set_validation_def
  val_init_def sum_sq_dist_def Let_def eval_nat_numeral

lemma dict_get_key: "name \<in> set (dict_keys d) \<Longrightarrow> \<exists>x. dict_get d name = Inr x \<and> map_of d name = Some x"
  by (cases "map_of d name") (auto simp: dict_get_def dict_keys_def map_of_eq_None_iff)

lemma dict_keys_set: "set (dict_keys (dict_set d k v)) = insert k (set (dict_keys d))"
  using dom_update[of k v d] by (simp add: dict_keys_def dict_set_def)

lemma map_of_dict_set: "map_of (dict_set d k v) = (map_of d)(k \<mapsto> v)"
  by (simp add: dict_set_def update_conv')

subsection \<open>The cluster container\<close>

lemma search_params_closed:
  "set ks \<subseteq> set (dict_keys (params self)) \<Longrightarrow>
   search_params (params self) field v ks names found =
     Inr (names @ filter (field_equals self field v) ks,
          found \<or> list_ex (has_field self field) ks)"
proof (induction ks arbitrary: names found)
  case Nil
  then show ?case by simp
next
  case (Cons name rest)
  from Cons.prems obtain p where p: "dict_get (params self) name = Inr p" "map_of (params self) name = Some p"
    using dict_get_key[of name "params self"] by auto
  have rest: "set rest \<subseteq> set (dict_keys (params self))" using Cons.prems by simp
  show ?case
  proof (cases "map_of p field")
    case None
    then show ?thesis using p Cons.IH[OF rest]
      by (simp add: dict_contains_def has_field_def field_equals_def)
  next
    case (Some w)
    then show ?thesis using p Cons.IH[OF rest]
      by (simp add: dict_contains_def dict_get_def has_field_def field_equals_def)
  qed
qed

text \<open>
  Claim C9. For a field other than \<^verbatim>\<open>data_source\<close>, \<^verbatim>\<open>algorithm\<close> and \<^verbatim>\<open>clusterNumber\<close>,
  \<^verbatim>\<open>search_field\<close> raises \<^verbatim>\<open>ValueError\<close> exactly when no stored solution has the field among
  its parameters; otherwise it returns, in the order of the dictionary, exactly the names
  of the solutions whose value for the field equals the given value (the empty list when
  none does). It raises nothing else, and the object is as before.
\<close>

theorem search_field_params:
  assumes "field \<noteq> ''data_source''" "field \<noteq> ''algorithm''" "field \<noteq> ''clusterNumber''"
  shows "((\<exists>msg. fst (search_field self field v) = Inl (ValueError msg)) \<longleftrightarrow>
            \<not> list_ex (has_field self field) (dict_keys (params self)))
       \<and> (list_ex (has_field self field) (dict_keys (params self)) \<longrightarrow>
            fst (search_field self field v) =
              Inr (filter (field_equals self field v) (dict_keys (params self))))
       \<and> (\<forall>e. fst (search_field self field v) = Inl e \<longrightarrow> e = ValueError (search_field_msg field))
       \<and> snd (search_field self field v) = self"
  using assms search_params_closed[of "dict_keys (params self)" self field v "[]" False]
  by (auto simp: search_field_def)

theorem search_field_params_witness:
  "fst (search_field ex_cluster ''linkage'' (PStr ''ward'')) = Inr [''hc'']
   \<and> fst (search_field ex_cluster ''linkage'' (PStr ''average'')) = Inr []
   \<and> fst (search_field ex_cluster ''K'' (PFloat 2)) = Inr [''km2'', ''hc'']
   \<and> fst (search_field ex_cluster ''distance'' (PInt 2)) = Inl (ValueError (search_field_msg ''distance''))"
proof -
  have a: "list_ex (has_field ex_cluster ''linkage'') (dict_keys (params ex_cluster))"
    by (simp add: ex_cluster_def has_field_def dict_keys_def)
  have b: "list_ex (has_field ex_cluster ''K'') (dict_keys (params ex_cluster))"
    by (simp add: ex_cluster_def has_field_def dict_keys_def)
  have c: "\<not> list_ex (has_field ex_cluster ''distance'') (dict_keys (params ex_cluster))"
    by (simp add: ex_cluster_def has_field_def dict_keys_def)
  have fa: "filter (field_equals ex_cluster ''linkage'' (PStr ''ward'')) (dict_keys (params ex_cluster)) = [''hc'']"
    by (simp add: ex_cluster_def field_equals_def dict_keys_def py_eq_def)
  have fb: "filter (field_equals ex_cluster ''linkage'' (PStr ''average'')) (dict_keys (params ex_cluster)) = []"
    by (simp add: ex_cluster_def field_equals_def dict_keys_def py_eq_def)
  have fc: "filter (field_equals ex_cluster ''K'' (PFloat 2)) (dict_keys (params ex_cluster)) = [''km2'', ''hc'']"
    by (simp add: ex_cluster_def field_equals_def dict_keys_def py_eq_def)
  have 1: "fst (search_field ex_cluster ''linkage'' (PStr ''ward'')) = Inr [''hc'']"
    using search_field_params[of "''linkage''" ex_cluster "PStr ''ward''"] a fa by simp
  have 2: "fst (search_field ex_cluster ''linkage'' (PStr ''average'')) = Inr []"
    using search_field_params[of "''linkage''" ex_cluster "PStr ''average''"] a fb by simp
  have 3: "fst (search_field ex_cluster ''K'' (PFloat 2)) = Inr [''km2'', ''hc'']"
    using search_field_params[of "''K''" ex_cluster "PFloat 2"] b fc by simp
  have 4: "fst (search_field ex_cluster ''distance'' (PInt 2)) = Inl (ValueError (search_field_msg ''distance''))"
    using search_field_params[of "''distance''" ex_cluster "PInt 2"] c by auto
  show ?thesis using 1 2 3 4 by simp
qed

text \<open>The empty container, a slice and the result of \<^verbatim>\<open>mixture_model\<close> hold the same names
  in their five dictionaries.\<close>

lemma same_keys_init: "same_keys (cluster_init d)"
  by (simp add: same_keys_def cluster_init_def dict_keys_def)

lemma slice_of_same_keys: "slice_of self names c \<Longrightarrow> same_keys c"
  by (simp add: slice_of_def same_keys_def)

lemma mixture_model_same_keys:
  "fst (mixture_model em self K iterations) = Inr c \<Longrightarrow> same_keys c"
  by (auto simp: mixture_model_def Let_def same_keys_def cluster_init_def dict_keys_def
      dict_set_def split: if_splits sum.splits)

lemma slice_loop_ok:
  "same_keys self \<Longrightarrow> set rest \<subseteq> set (dict_keys (labels self)) \<Longrightarrow>
   \<exists>c'. slice_loop self (dict_keys (labels self)) rest c = Inr c'
       \<and> dataObj c' = dataObj c
       \<and> set (dict_keys (labels c')) = set (dict_keys (labels c)) \<union> set rest
       \<and> set (dict_keys (data_source c')) = set (dict_keys (data_source c)) \<union> set rest
       \<and> set (dict_keys (params c')) = set (dict_keys (params c)) \<union> set rest
       \<and> set (dict_keys (clusterNumbers c')) = set (dict_keys (clusterNumbers c)) \<union> set rest
       \<and> set (dict_keys (algorithms c')) = set (dict_keys (algorithms c)) \<union> set rest
       \<and> (\<forall>name. same_entry self c' name = (name \<in> set rest \<or> same_entry self c name))"
proof (induction rest arbitrary: c)
  case Nil
  then show ?case by simp
next
  case (Cons name rest)
  have k: "name \<in> set (dict_keys (labels self))" "set rest \<subseteq> set (dict_keys (labels self))"
    using Cons.prems by auto
  from k(1) Cons.prems(1) have ks:
    "name \<in> set (dict_keys (data_source self))" "name \<in> set (dict_keys (params self))"
    "name \<in> set (dict_keys (clusterNumbers self))" "name \<in> set (dict_keys (algorithms self))"
    by (auto simp: same_keys_def)
  obtain l where l: "dict_get (labels self) name = Inr l" "map_of (labels self) name = Some l"
    using dict_get_key[OF k(1)] by auto
  obtain s where s: "dict_get (data_source self) name = Inr s" "map_of (data_source self) name = Some s"
    using dict_get_key[OF ks(1)] by auto
  obtain p where p: "dict_get (params self) name = Inr p" "map_of (params self) name = Some p"
    using dict_get_key[OF ks(2)] by auto
  obtain n where n: "dict_get (clusterNumbers self) name = Inr n" "map_of (clusterNumbers self) name = Some n"
    using dict_get_key[OF ks(3)] by auto
  obtain a where a: "dict_get (algorithms self) name = Inr a" "map_of (algorithms self) name = Some a"
    using dict_get_key[OF ks(4)] by auto
  define c1 where "c1 = c\<lparr>labels := dict_set (labels c) name l,
               data_source := dict_set (data_source c) name s,
               params := dict_set (params c) name p,
               clusterNumbers := dict_set (clusterNumbers c) name n,
               algorithms := dict_set (algorithms c) name a\<rparr>"
  have step: "slice_loop self (dict_keys (labels self)) (name # rest) c
        = slice_loop self (dict_keys (labels self)) rest c1"
    using k(1) l s p n a by (simp add: c1_def)
  have e1: "\<And>x. same_entry self c1 x = (x = name \<or> same_entry self c x)"
    using l s p n a by (auto simp: same_entry_def c1_def map_of_dict_set)
  from Cons.IH[OF Cons.prems(1) k(2), of c1] obtain c' where c':
    "slice_loop self (dict_keys (labels self)) rest c1 = Inr c'"
    "dataObj c' = dataObj c1"
    "set (dict_keys (labels c')) = set (dict_keys (labels c1)) \<union> set rest"
    "set (dict_keys (data_source c')) = set (dict_keys (data_source c1)) \<union> set rest"
    "set (dict_keys (params c')) = set (dict_keys (params c1)) \<union> set rest"
    "set (dict_keys (clusterNumbers c')) = set (dict_keys (clusterNumbers c1)) \<union> set rest"
    "set (dict_keys (algorithms c')) = set (dict_keys (algorithms c1)) \<union> set rest"
    "\<forall>x. same_entry self c' x = (x \<in> set rest \<or> same_entry self c1 x)"
    by blast
  show ?case
    unfolding step using c' e1 by (auto simp: c1_def dict_keys_set)
qed

lemma slice_loop_bad:
  "same_keys self \<Longrightarrow> \<not> set rest \<subseteq> set (dict_keys (labels self)) \<Longrightarrow>
   \<exists>name. name \<in> set rest \<and> name \<notin> set (dict_keys (labels self))
        \<and> slice_loop self (dict_keys (labels self)) rest c = Inl (ValueError (slice_msg name))"
proof (induction rest arbitrary: c)
  case Nil
  then show ?case by simp
next
  case (Cons name rest)
  show ?case
  proof (cases "name \<in> set (dict_keys (labels self))")
    case False
    then show ?thesis by auto
  next
    case True
    then have r: "\<not> set rest \<subseteq> set (dict_keys (labels self))" using Cons.prems by auto
    from True Cons.prems(1) have ks:
      "name \<in> set (dict_keys (data_source self))" "name \<in> set (dict_keys (params self))"
      "name \<in> set (dict_keys (clusterNumbers self))" "name \<in> set (dict_keys (algorithms self))"
      by (auto simp: same_keys_def)
    obtain l where l: "dict_get (labels self) name = Inr l"
      using dict_get_key[OF True] by auto
    obtain s where s: "dict_get (data_source self) name = Inr s"
      using dict_get_key[OF ks(1)] by auto
    obtain p where p: "dict_get (params self) name = Inr p"
      using dict_get_key[OF ks(2)] by auto
    obtain n where n: "dict_get (clusterNumbers self) name = Inr n"
      using dict_get_key[OF ks(3)] by auto
    obtain a where a: "dict_get (algorithms self) name = Inr a"
      using dict_get_key[OF ks(4)] by auto
    show ?thesis
      using True l s p n a Cons.IH[OF Cons.prems(1) r] by (simp, blast)
  qed
qed

text \<open>
  Claim C10. On a cluster object whose five dictionaries hold the same names: when every
  name of the list is an existing solution name, \<^verbatim>\<open>slice\<close> returns a new cluster object
  with the same data object whose \<^verbatim>\<open>labels\<close>, \<^verbatim>\<open>data_source\<close>, \<^verbatim>\<open>params\<close>, \<^verbatim>\<open>clusterNumbers\<close> and
  \<^verbatim>\<open>algorithms\<close> hold exactly the given names, each entry that of the original; when some
  name is not an existing solution name, it raises \<^verbatim>\<open>ValueError\<close> for such a name. The
  original object is unchanged in both cases.
\<close>

theorem slice_spec:
  assumes "same_keys self"
  shows "(set names \<subseteq> set (dict_keys (labels self)) \<longrightarrow>
            (\<exists>c. fst (slice self names) = Inr c \<and> slice_of self names c))
       \<and> (\<not> set names \<subseteq> set (dict_keys (labels self)) \<longrightarrow>
            (\<exists>name. name \<in> set names \<and> name \<notin> set (dict_keys (labels self))
                  \<and> fst (slice self names) = Inl (ValueError (slice_msg name))))
       \<and> snd (slice self names) = self"
proof (intro conjI impI)
  assume sub: "set names \<subseteq> set (dict_keys (labels self))"
  from slice_loop_ok[OF assms sub, of "cluster_init (dataObj self)"]
  obtain c' where c': "slice_loop self (dict_keys (labels self)) names (cluster_init (dataObj self)) = Inr c'"
       "dataObj c' = dataObj (cluster_init (dataObj self))"
       "set (dict_keys (labels c')) = set (dict_keys (labels (cluster_init (dataObj self)))) \<union> set names"
       "set (dict_keys (data_source c')) = set (dict_keys (data_source (cluster_init (dataObj self)))) \<union> set names"
       "set (dict_keys (params c')) = set (dict_keys (params (cluster_init (dataObj self)))) \<union> set names"
       "set (dict_keys (clusterNumbers c')) = set (dict_keys (clusterNumbers (cluster_init (dataObj self)))) \<union> set names"
       "set (dict_keys (algorithms c')) = set (dict_keys (algorithms (cluster_init (dataObj self)))) \<union> set names"
       "\<forall>name. same_entry self c' name = (name \<in> set names \<or> same_entry self (cluster_init (dataObj self)) name)"
    by blast
  have "slice_of self names c'"
    using c' by (simp add: slice_of_def cluster_init_def dict_keys_def list_all_iff)
  then show "\<exists>c. fst (slice self names) = Inr c \<and> slice_of self names c"
    using c'(1) by (simp add: slice_def)
next
  assume "\<not> set names \<subseteq> set (dict_keys (labels self))"
  from slice_loop_bad[OF assms this, of "cluster_init (dataObj self)"]
  show "\<exists>name. name \<in> set names \<and> name \<notin> set (dict_keys (labels self))
                  \<and> fst (slice self names) = Inl (ValueError (slice_msg name))"
    by (simp add: slice_def)
next
  show "snd (slice self names) = self" by (simp add: slice_def)
qed

theorem slice_spec_witness:
  "same_keys ex_cluster
   \<and> (\<exists>c. fst (slice ex_cluster [''hc'']) = Inr c \<and> slice_of ex_cluster [''hc''] c)
   \<and> fst (slice ex_cluster [''hc'', ''nope'']) = Inl (ValueError (slice_msg ''nope''))
   \<and> snd (slice ex_cluster [''hc'', ''nope'']) = ex_cluster"
proof -
  have a: "same_keys ex_cluster"
    by (auto simp: same_keys_def ex_cluster_def dict_keys_def)
  have k: "dict_keys (labels ex_cluster) = [''km2'', ''hc'']"
    by (simp add: ex_cluster_def dict_keys_def)
  have 1: "\<exists>c. fst (slice ex_cluster [''hc'']) = Inr c \<and> slice_of ex_cluster [''hc''] c"
    using slice_spec[OF a, of "[''hc'']"] k by simp
  have 2: "fst (slice ex_cluster [''hc'', ''nope'']) = Inl (ValueError (slice_msg ''nope''))"
    using slice_spec[OF a, of "[''hc'', ''nope'']"] k by auto
  have 3: "snd (slice ex_cluster [''hc'', ''nope'']) = ex_cluster"
    using slice_spec[OF a, of "[''hc'', ''nope'']"] by simp
  show ?thesis using a 1 2 3 by simp
qed

lemma collect_parg_length:
  "set ks \<subseteq> set (dict_keys d) \<Longrightarrow>
   \<exists>parg'. collect_parg d ks parg = Inr parg' \<and> length parg' = length parg + length ks"
proof (induction ks arbitrary: parg)
  case Nil
  then show ?case by simp
next
  case (Cons k ks)
  then obtain l where "dict_get d k = Inr l" using dict_get_key[of k d] by auto
  then show ?case using Cons.IH[of "parg @ [l]"] Cons.prems by auto
qed

text \<open>
  Claim C4. \<^verbatim>\<open>mixture_model\<close> raises whenever \<open>K < 2\<close> or the cluster object holds fewer
  than two clustering solutions (fewer than two entries in \<^verbatim>\<open>labels\<close> or in \<^verbatim>\<open>params\<close>): with
  fewer than two entries in \<^verbatim>\<open>params\<close> the method itself raises \<^verbatim>\<open>ValueError\<close>, otherwise the
  finishing routine refuses the call. No new cluster object is returned, and the object
  is unchanged.
\<close>

theorem mixture_model_rejects:
  assumes "K < 2 \<or> length (labels self) < 2 \<or> length (params self) < 2"
  shows "(\<exists>e. fst (mixture_model em self K iterations) = Inl e)
       \<and> (length (params self) < 2 \<longrightarrow>
            fst (mixture_model em self K iterations) = Inl (ValueError mixture_model_msg))
       \<and> snd (mixture_model em self K iterations) = self"
proof -
  obtain parg where parg: "collect_parg (labels self) (dict_keys (labels self)) [] = Inr parg"
      "length parg = length (labels self)"
    using collect_parg_length[of "dict_keys (labels self)" "labels self" "[]"]
    by (auto simp: dict_keys_def)
  show ?thesis
    using assms parg
    by (auto simp: mixture_model_def finish_mixture_model_def Let_def split: sum.splits)
qed

theorem mixture_model_rejects_witness:
  "fst (mixture_model (\<lambda>parg N K i. replicate N 0) ex_cluster 1 10) = Inl InputError
   \<and> fst (mixture_model (\<lambda>parg N K i. replicate N 0) (cluster_init (dataObj ex_cluster)) 2 10)
       = Inl (ValueError mixture_model_msg)"
proof -
  have 1: "fst (mixture_model (\<lambda>parg N K i. replicate N 0) ex_cluster 1 10) = Inl InputError"
    using mixture_model_rejects[of 1 ex_cluster "\<lambda>parg N K i. replicate N 0" 10]
    by (simp add: mixture_model_def finish_mixture_model_def ex_cluster_def dict_keys_def dict_get_def)
  have 2: "fst (mixture_model (\<lambda>parg N K i. replicate N 0) (cluster_init (dataObj ex_cluster)) 2 10)
       = Inl (ValueError mixture_model_msg)"
    using mixture_model_rejects[of 2 "cluster_init (dataObj ex_cluster)" "\<lambda>parg N K i. replicate N 0" 10]
    by (simp add: cluster_init_def)
  show ?thesis using 1 2 by simp
qed

subsection \<open>The validation container\<close>







lemma calculate_raise_keeps_results:
  assumes "fst (calculate score self vn cn sn) = Inl e"
  shows "same_results (snd (calculate score self vn cn sn)) self"
proof (cases "getattr_metric score vn")
  case (Inl a)
  then show ?thesis
    by (simp add: calculate_def Let_def same_results_def split: sum.splits)
next
  case (Inr func)
  show ?thesis
  proof (cases "dict_get (D (v_dataObj self)) sn")
    case (Inl a)
    then show ?thesis by (simp add: calculate_def Let_def same_results_def split: sum.splits)
  next
    case X: (Inr X)
    show ?thesis
    proof (cases "dict_get (labels (v_cObj self)) cn")
      case (Inl a)
      then show ?thesis by (simp add: calculate_def Let_def same_results_def split: sum.splits)
    next
      case L: (Inr L)
      obtain r v where rv: "func (val_init X L) = (r, v)" by (cases "func (val_init X L)") auto
      show ?thesis
      proof (cases "oe_validation_metrics_available self")
        case (Inl a)
        then show ?thesis by (simp add: calculate_def Let_def same_results_def)
      next
        case F: (Inr F)
        show ?thesis
          using assms
          by (cases r) (simp_all add: calculate_def Let_def same_results_def Inr X L F rv split: if_splits)
      qed
    qed
  qed
qed

text \<open>
  Claim C7. In the example container the data source \<^verbatim>\<open>parent\<close> and the metric \<^verbatim>\<open>Ball_Hall\<close>
  exist and the clustering solution \<^verbatim>\<open>nope\<close> does not. The call raises \<^verbatim>\<open>ValueError\<close> and
  leaves the object unchanged, but its message names \<^verbatim>\<open>parent\<close>, the valid data source,
  and not the invalid argument \<^verbatim>\<open>nope\<close>: the message is built from \<^verbatim>\<open>source_name\<close>.
\<close>

theorem calculate_unknown_cluster_message:
  "calculate score ex_validation ''Ball_Hall'' ''nope'' ''parent''
   = (Inl (ValueError
        ''ERROR: the clustering solution you requested for validation does not exist by the name parent''),
      ex_validation)"
  by (simp add: calculate_def ex_validation_def ex_cluster_def oe_validation_init_def
      calculate_output_name_def dict_contains_def calculate_cluster_msg_def)

subsection \<open>The metrics\<close>

text \<open>On two objects that are each a cluster of their own, \<^verbatim>\<open>Banfeld_Raferty\<close> takes its
  guarded branch in every iteration (it only warns) and returns the initial NaN.\<close>

lemma Banfeld_Raferty_degenerate:
  "fst (Banfeld_Raferty (val_init [[0], [1]] [0, 1])) = Inr np_nan"
  by (simp add: Banfeld_Raferty_def Banfeld_Raferty_step_def num_defs arr_defs)

text \<open>
  Claim C1. Two objects \<open>0\<close> and \<open>1\<close>, each a cluster of its own (labels \<open>0, 1\<close>): every
  within-cluster sum is zero. \<^verbatim>\<open>Baker_Hubert_Gamma\<close>, \<^verbatim>\<open>c_index\<close> and \<^verbatim>\<open>log_ss_ratio\<close> divide
  Python numbers by zero and raise \<^verbatim>\<open>ZeroDivisionError\<close> instead of returning NaN;
  \<^verbatim>\<open>det_ratio\<close> divides numpy numbers and returns an infinity, not NaN.
\<close>

theorem degenerate_metrics_raise:
  "fst (Baker_Hubert_Gamma (val_init [[0], [1]] [0, 1])) = Inl ZeroDivisionError
   \<and> fst (c_index (val_init [[0], [1]] [0, 1])) = Inl ZeroDivisionError
   \<and> fst (log_ss_ratio (val_init [[0], [1]] [0, 1])) = Inl ZeroDivisionError
   \<and> fst (det_ratio (val_init [[0], [1]] [0, 1])) = Inr (Num KNp PInf)"
proof -
  have 1: "fst (Baker_Hubert_Gamma (val_init [[0], [1]] [0, 1])) = Inl ZeroDivisionError"
    by (simp add: Baker_Hubert_Gamma_def num_defs arr_defs)
  have 2: "fst (c_index (val_init [[0], [1]] [0, 1])) = Inl ZeroDivisionError"
    by (simp add: c_index_def c_index_step_def num_defs arr_defs)
  have 3: "fst (log_ss_ratio (val_init [[0], [1]] [0, 1])) = Inl ZeroDivisionError"
    by (simp add: log_ss_ratio_def log_ss_ratio_step_def num_defs arr_defs)
  have 4: "fst (det_ratio (val_init [[0], [1]] [0, 1])) = Inr (Num KNp PInf)"
    by (simp add: det_ratio_def scatter_step_def num_defs arr_defs)
  show ?thesis using 1 2 3 4 by (intro conjI)
qed

text \<open>What the metrics leave alone: none writes the labels, and none but \<^verbatim>\<open>det_ratio\<close> and
  \<^verbatim>\<open>log_det_ratio\<close> writes the data matrix.\<close>

lemma set_validation_frame:
  "dataMatrix (snd (set_validation self r)) = dataMatrix self
   \<and> classLabel (snd (set_validation self r)) = classLabel self"
  by (cases r) (simp_all add: set_validation_def)

lemma Banfeld_Raferty_loop_frame:
  "dataMatrix (snd (Banfeld_Raferty_loop xs s self)) = dataMatrix self
   \<and> classLabel (snd (Banfeld_Raferty_loop xs s self)) = classLabel self"
proof (induction xs arbitrary: s self)
  case Nil
  then show ?case by simp
next
  case (Cons i xs)
  show ?case
  proof (cases "Banfeld_Raferty_step (dataMatrix self) (classLabel self) i s")
    case (Inl e)
    then show ?thesis by simp
  next
    case (Inr r)
    show ?thesis
    proof (cases r)
      case None
      then show ?thesis using Inr Cons.IH[of s self] by simp
    next
      case (Some s')
      then show ?thesis using Inr Cons.IH[of s' "self\<lparr>validation := s'\<rparr>"] by simp
    qed
  qed
qed

lemma metrics_keep_labels_and_data:
  assumes "(name, func) \<in> set (metric_table score)"
  shows "classLabel (snd (func self)) = classLabel self
       \<and> (name \<noteq> ''det_ratio'' \<and> name \<noteq> ''log_det_ratio'' \<longrightarrow>
            dataMatrix (snd (func self)) = dataMatrix self)"
proof -
  have 1: "classLabel (snd (Baker_Hubert_Gamma self)) = classLabel self
         \<and> dataMatrix (snd (Baker_Hubert_Gamma self)) = dataMatrix self"
    by (simp add: Baker_Hubert_Gamma_def Let_def set_validation_frame)
  have 2: "classLabel (snd (Ball_Hall self)) = classLabel self
         \<and> dataMatrix (snd (Ball_Hall self)) = dataMatrix self"
    by (simp add: Ball_Hall_def Let_def set_validation_frame)
  have 3: "classLabel (snd (Banfeld_Raferty self)) = classLabel self
         \<and> dataMatrix (snd (Banfeld_Raferty self)) = dataMatrix self"
    by (simp add: Banfeld_Raferty_def Let_def Banfeld_Raferty_loop_frame split: sum.splits)
  have 4: "classLabel (snd (McClain_Rao self)) = classLabel self
         \<and> dataMatrix (snd (McClain_Rao self)) = dataMatrix self"
    by (simp add: McClain_Rao_def Let_def set_validation_frame split: sum.splits prod.splits)
  have 5: "classLabel (snd (PBM_index self)) = classLabel self
         \<and> dataMatrix (snd (PBM_index self)) = dataMatrix self"
    by (simp add: PBM_index_def Let_def set_validation_frame split: sum.splits prod.splits)
  have 6: "classLabel (snd (Ratkowsky_Lance self)) = classLabel self
         \<and> dataMatrix (snd (Ratkowsky_Lance self)) = dataMatrix self"
    by (simp add: Ratkowsky_Lance_def Let_def set_validation_frame split: sum.splits prod.splits)
  have 7: "classLabel (snd (c_index self)) = classLabel self
         \<and> dataMatrix (snd (c_index self)) = dataMatrix self"
    by (simp add: c_index_def Let_def set_validation_frame split: sum.splits prod.splits)
  have 8: "\<And>s. classLabel (snd (det_ratio s)) = classLabel s"
    by (simp add: det_ratio_def Let_def set_validation_frame split: sum.splits prod.splits)
  have 9: "classLabel (snd (g_plus_index self)) = classLabel self
         \<and> dataMatrix (snd (g_plus_index self)) = dataMatrix self"
    by (simp add: g_plus_index_def Let_def set_validation_frame split: sum.splits prod.splits)
  have 10: "classLabel (snd (ksq_detw_index self)) = classLabel self
         \<and> dataMatrix (snd (ksq_detw_index self)) = dataMatrix self"
    by (simp add: ksq_detw_index_def Let_def set_validation_frame split: sum.splits prod.splits)
  have 11: "classLabel (snd (log_det_ratio self)) = classLabel self"
    using 8[of "self\<lparr>description := ''The log determinant ratio index, a measure of connectedness''\<rparr>"]
    by (auto simp: log_det_ratio_def Let_def set_validation_frame split: sum.splits prod.splits)
  have 12: "classLabel (snd (log_ss_ratio self)) = classLabel self
         \<and> dataMatrix (snd (log_ss_ratio self)) = dataMatrix self"
    by (simp add: log_ss_ratio_def Let_def set_validation_frame split: sum.splits prod.splits)
  have 13: "classLabel (snd (point_biserial self)) = classLabel self
         \<and> dataMatrix (snd (point_biserial self)) = dataMatrix self"
    by (simp add: point_biserial_def Let_def set_validation_frame split: sum.splits prod.splits)
  have 14: "classLabel (snd (silhouette score self)) = classLabel self
         \<and> dataMatrix (snd (silhouette score self)) = dataMatrix self"
    by (simp add: silhouette_def Let_def set_validation_frame split: sum.splits prod.splits)
  from assms have "(name, func) \<in> {(''Baker_Hubert_Gamma'', Baker_Hubert_Gamma),
      (''Ball_Hall'', Ball_Hall), (''Banfeld_Raferty'', Banfeld_Raferty),
      (''McClain_Rao'', McClain_Rao), (''PBM_index'', PBM_index),
      (''Ratkowsky_Lance'', Ratkowsky_Lance), (''c_index'', c_index), (''det_ratio'', det_ratio),
      (''g_plus_index'', g_plus_index), (''ksq_detw_index'', ksq_detw_index),
      (''log_det_ratio'', log_det_ratio), (''log_ss_ratio'', log_ss_ratio),
      (''point_biserial'', point_biserial), (''silhouette'', silhouette score)}"
    unfolding metric_table_def by simp
  then show ?thesis
    using 1 2 3 4 5 6 7 8 9 10 11 12 13 14 by (elim insertE emptyE) simp_all
qed

text \<open>
  Claim C2. Two objects \<open>1\<close> and \<open>3\<close> in one cluster: \<^verbatim>\<open>det_ratio\<close> returns \<open>1\<close> and leaves the
  centred matrix \<open>-1, 1\<close> in \<^verbatim>\<open>dataMatrix\<close>, and so does \<^verbatim>\<open>log_det_ratio\<close>, which calls it;
  \<^verbatim>\<open>ksq_detw_index\<close> leaves the matrix as it was. No metric writes the labels.
\<close>

theorem det_ratio_overwrites_dataMatrix:
  "fst (det_ratio (val_init [[1], [3]] [0, 0])) = Inr (np_float 1)
   \<and> dataMatrix (snd (det_ratio (val_init [[1], [3]] [0, 0]))) = [[- 1], [1]]
   \<and> dataMatrix (snd (log_det_ratio (val_init [[1], [3]] [0, 0]))) = [[- 1], [1]]
   \<and> dataMatrix (snd (ksq_detw_index (val_init [[1], [3]] [0, 0]))) = [[1], [3]]"
proof -
  have 1: "fst (det_ratio (val_init [[1], [3]] [0, 0])) = Inr (np_float 1)"
    by (simp add: det_ratio_def scatter_step_def num_defs arr_defs)
  have 2: "dataMatrix (snd (det_ratio (val_init [[1], [3]] [0, 0]))) = [[- 1], [1]]"
    by (simp add: det_ratio_def scatter_step_def num_defs arr_defs)
  have 3: "dataMatrix (snd (log_det_ratio (val_init [[1], [3]] [0, 0]))) = [[- 1], [1]]"
    by (simp add: log_det_ratio_def det_ratio_def scatter_step_def num_defs arr_defs)
  have 4: "dataMatrix (snd (ksq_detw_index (val_init [[1], [3]] [0, 0]))) = [[1], [3]]"
    by (simp add: ksq_detw_index_def scatter_step_def num_defs arr_defs)
  show ?thesis using 1 2 3 4 by (intro conjI)
qed

lemma py_max_int_Max: "L \<noteq> [] \<Longrightarrow> py_max_int L = Inr (Max (set L))"
proof (cases L)
  case Nil
  then show "L \<noteq> [] \<Longrightarrow> ?thesis" by simp
next
  case (Cons x xs)
  have "\<And>m. fold (\<lambda>y m. if m < y then y else m) xs m = Max (set (m # xs))"
  proof (induction xs)
    case Nil
    then show ?case by simp
  next
    case (Cons a xs)
    show ?case
      unfolding fold_simps Cons.IH
      by (cases "set xs = {}") (auto simp: max_def insert_commute)
  qed
  then show ?thesis using Cons by simp
qed

lemma numCluster_unique_card: "numCluster_unique L = int (card (set L))"
  by (simp add: numCluster_unique_def np_unique_def length_remdups_card_conv)




lemma Fin_plus [simp]: "Fin a + Fin b = Fin (a + b)"
  by (simp add: plus_fl_def)

lemma sum_list_Fin: "sum_list (map (\<lambda>x. Fin (f x)) xs) = Fin (\<Sum>x\<leftarrow>xs. f x)"
  by (induction xs) (simp_all add: zero_fl_def)

lemma fl_sq_diff_Fin [simp]: "fl_sq_diff (Fin a) (Fin b) = Fin ((a - b)\<^sup>2)"
  by (simp add: fl_sq_diff_def power2_eq_square)

lemma map2_sq_diff_Fin:
  "map2 fl_sq_diff (map Fin u) (map Fin c) = map Fin (map2 (\<lambda>a b. (a - b)\<^sup>2) u c)"
  by (induction u arbitrary: c) (auto simp: neq_Nil_conv split: list.splits, case_tac c, auto)

lemma euclidean_Fin:
  "euclidean (map Fin u) (map Fin c) = Num KNp (Fin (row_dist u c))"
proof -
  have nn: "0 \<le> sum_list (map2 (\<lambda>a b. (a - b)\<^sup>2) u c)"
    by (rule sum_list_nonneg) auto
  have "sum_list (map Fin (map2 (\<lambda>a b. (a - b)\<^sup>2) u c))
        = Fin (sum_list (map2 (\<lambda>a b. (a - b)\<^sup>2) u c))"
    using sum_list_Fin[of "\<lambda>x. x" "map2 (\<lambda>a b. (a - b)\<^sup>2) u c"] by simp
  then show ?thesis using nn
    by (simp add: euclidean_def map2_sq_diff_Fin row_dist_def)
qed

lemma math_pow_euclidean:
  "math_pow (euclidean (map Fin u) (map Fin c)) 2 = py_float (sum_list (map2 (\<lambda>a b. (a - b)\<^sup>2) u c))"
proof -
  have nn: "0 \<le> sum_list (map2 (\<lambda>a b. (a - b)\<^sup>2) u c)"
    by (rule sum_list_nonneg) auto
  show ?thesis using nn
    by (simp add: euclidean_Fin math_pow_def py_float_def row_dist_def eval_nat_numeral)
qed


lemma fold_plus_acc:
  fixes a :: "'a::comm_monoid_add"
  shows "fold (\<lambda>x acc. acc + g x) xs a = a + sum_list (map g xs)"
  by (induction xs arbitrary: a) (simp_all add: add.assoc)

lemma py_float_plus [simp]: "py_float a + py_float b = py_float (a + b)"
  by (simp add: py_float_def plus_pynum_def)

lemma zero_plus_py_float [simp]: "0 + py_float a = py_float a"
  by (simp add: py_float_def plus_pynum_def zero_pynum_def)

lemma sum_list_py_float:
  "xs \<noteq> [] \<Longrightarrow> sum_list (map (\<lambda>x. py_float (h x)) xs) = py_float (\<Sum>x\<leftarrow>xs. h x)"
proof (induction xs)
  case Nil
  then show ?case by simp
next
  case (Cons x xs)
  show ?case
  proof (cases "xs = []")
    case True
    then show ?thesis by (simp add: add.commute[of _ "0::pynum"])
  next
    case False
    then show ?thesis using Cons.IH by simp
  qed
qed

lemma sum_sq_dist_Fin:
  "rows \<noteq> [] \<Longrightarrow>
   sum_sq_dist rows (map Fin c) = py_float (\<Sum>row\<leftarrow>rows. sum_list (map2 (\<lambda>a b. (a - b)\<^sup>2) row c))"
  unfolding sum_sq_dist_def fold_plus_acc math_pow_euclidean
  by (simp add: sum_list_py_float)

lemma np_mean0_Fin:
  "rows \<noteq> [] \<Longrightarrow>
   np_mean0 m rows = map Fin (map (\<lambda>j. sum_list (column rows j) / real (length rows)) [0..<m])"
  by (simp add: np_mean0_def np_mean_def column_def)

lemma fold_err_sum:
  fixes acc :: "'s::comm_monoid_add"
  assumes "\<And>i a. i \<in> set xs \<Longrightarrow> f i a = Inr (a + g i)"
  shows "fold_err f xs acc = Inr (acc + sum_list (map g xs))"
  using assms by (induction xs arbitrary: acc) (simp_all add: add.assoc)

lemma set_indices_of: "set (indices_of L i) = cluster_set L i"
  by (auto simp: indices_of_def cluster_set_def)

lemma distinct_indices_of: "distinct (indices_of L i)"
  by (simp add: indices_of_def)

lemma length_indices_of: "length (indices_of L i) = card (cluster_set L i)"
  using distinct_card[OF distinct_indices_of, of L i] by (simp add: set_indices_of)

lemma sum_list_indices_of: "(\<Sum>t\<leftarrow>indices_of L i. h t) = (\<Sum>t\<in>cluster_set L i. h t)"
  using sum_list_distinct_conv_sum_set[OF distinct_indices_of, of h L i]
  by (simp add: set_indices_of)

lemma sum_list_map2_nth:
  "length u = m \<Longrightarrow> length c = m \<Longrightarrow>
   sum_list (map2 f u c) = (\<Sum>k<m. f (u ! k) (c ! k))"
proof -
  assume a: "length u = m" "length c = m"
  have "map2 f u c = map (\<lambda>k. f (u ! k) (c ! k)) [0..<m]"
    using a by (intro nth_equalityI) auto
  then show ?thesis
    by (simp add: sum_list_sum_nth atLeast0LessThan)
qed

lemma Ball_Hall_step_closed:
  assumes rect: "rectangular X" and len: "length L = length X"
    and ne: "cluster_set L i \<noteq> {}"
  shows "Ball_Hall_step X L i acc =
     Inr (acc + py_float ((\<Sum>t\<in>cluster_set L i. sq_dist_centroid X (cluster_set L i) t)
                           / real (card (cluster_set L i))))"
proof -
  let ?ind = "indices_of L i"
  let ?C = "cluster_set L i"
  have ind_ne: "?ind \<noteq> []" using ne set_indices_of[of L i] by auto
  have ind_lt: "\<And>t. t \<in> set ?ind \<Longrightarrow> t < length X"
    using len by (auto simp: indices_of_def)
  then have rows: "np_rows X ?ind = Inr (map (\<lambda>t. X ! t) ?ind)"
    by (simp add: np_rows_def list_all_iff)
  let ?rows = "map (\<lambda>t. X ! t) ?ind"
  have rows_ne: "?rows \<noteq> []" using ind_ne by simp
  have rowlen: "\<And>t. t \<in> set ?ind \<Longrightarrow> length (X ! t) = ncols X"
    using rect ind_lt by (auto simp: rectangular_def list_all_iff)
  let ?c = "map (\<lambda>j. sum_list (column ?rows j) / real (length ?rows)) [0..<ncols X]"
  have cen: "\<And>k. k < ncols X \<Longrightarrow> ?c ! k = centroid X ?C k"
    by (simp add: column_def centroid_def comp_def sum_list_indices_of length_indices_of)
  have inner: "\<And>t. t \<in> set ?ind \<Longrightarrow>
      sum_list (map2 (\<lambda>a b. (a - b)\<^sup>2) (X ! t) ?c) = sq_dist_centroid X ?C t"
  proof -
    fix t assume t: "t \<in> set ?ind"
    have "sum_list (map2 (\<lambda>a b. (a - b)\<^sup>2) (X ! t) ?c)
          = (\<Sum>k<ncols X. (X ! t ! k - ?c ! k)\<^sup>2)"
      by (rule sum_list_map2_nth) (simp_all add: rowlen[OF t])
    also have "\<dots> = (\<Sum>k<ncols X. (X ! t ! k - centroid X ?C k)\<^sup>2)"
      by (rule sum.cong, rule refl) (simp only: cen lessThan_iff)
    finally show "sum_list (map2 (\<lambda>a b. (a - b)\<^sup>2) (X ! t) ?c) = sq_dist_centroid X ?C t"
      by (simp add: sq_dist_centroid_def)
  qed
  have ssd: "sum_sq_dist ?rows (np_mean0 (ncols X) ?rows)
        = py_float (\<Sum>t\<in>?C. sq_dist_centroid X ?C t)"
  proof -
    have "sum_sq_dist ?rows (np_mean0 (ncols X) ?rows)
        = py_float (\<Sum>row\<leftarrow>?rows. sum_list (map2 (\<lambda>a b. (a - b)\<^sup>2) row ?c))"
      unfolding np_mean0_Fin[OF rows_ne] by (rule sum_sq_dist_Fin[OF rows_ne])
    also have "(\<Sum>row\<leftarrow>?rows. sum_list (map2 (\<lambda>a b. (a - b)\<^sup>2) row ?c))
        = (\<Sum>t\<leftarrow>?ind. sq_dist_centroid X ?C t)"
      unfolding map_map comp_def
      by (rule arg_cong[where f = sum_list], rule map_cong[OF refl]) (rule inner)
    finally show ?thesis by (simp add: sum_list_indices_of)
  qed
  have n_pos: "card ?C > 0"
    using ind_ne unfolding length_indices_of[symmetric] by simp
  have div: "\<And>s. py_truediv (py_float s) (py_int (int (length ?ind)))
       = Inr (py_float (s / real (card ?C)))"
    using n_pos by (simp add: py_truediv_def py_float_def py_int_def length_indices_of)
  show ?thesis
    unfolding Ball_Hall_step_def Let_def rows sum.case ssd div by simp
qed

text \<open>
  Claim C6. For a matrix with one row per label and labels that are exactly
  \<open>0, \<dots>, K-1\<close> with \<open>K > 0\<close> (so that every cluster is non-empty), \<^verbatim>\<open>Ball_Hall\<close> returns the
  mean over the \<open>K\<close> clusters of the mean squared Euclidean distance of the members of a
  cluster to the centroid of the cluster.
\<close>

theorem Ball_Hall_mean_dispersion:
  assumes K: "0 < K" and contiguous: "set L = int ` {0..<K}"
    and len: "length L = length X" and rect: "rectangular X"
  shows "fst (Ball_Hall (val_init X L)) = Inr (py_float (Ball_Hall_formula X L K))"
proof -
  have nu: "numCluster_unique L = int K"
  proof -
    have "length (np_unique L) = card (set L)"
      by (simp add: np_unique_def length_remdups_card_conv)
    also have "\<dots> = K" unfolding contiguous by (simp add: card_image)
    finally show ?thesis by (simp add: numCluster_unique_def)
  qed
  have ne: "\<And>i. i \<in> set (py_range (int K)) \<Longrightarrow> cluster_set L i \<noteq> {}"
  proof -
    fix i assume "i \<in> set (py_range (int K))"
    then have "i \<in> set L" unfolding contiguous by (auto simp: py_range_def)
    then obtain t where "t < length L" "L ! t = i" by (auto simp: in_set_conv_nth)
    then show "cluster_set L i \<noteq> {}" by (auto simp: cluster_set_def)
  qed
  let ?g = "\<lambda>i. py_float ((\<Sum>t\<in>cluster_set L i. sq_dist_centroid X (cluster_set L i) t)
                           / real (card (cluster_set L i)))"
  have loop: "fold_err (Ball_Hall_step X L) (py_range (int K)) 0
        = Inr (0 + sum_list (map ?g (py_range (int K))))"
    by (rule fold_err_sum) (rule Ball_Hall_step_closed[OF rect len ne])
  have rng: "py_range (int K) \<noteq> []" using K by (simp add: py_range_def)
  have tot: "0 + sum_list (map ?g (py_range (int K)))
      = py_float (\<Sum>i<K. (\<Sum>t\<in>cluster_set L (int i). sq_dist_centroid X (cluster_set L (int i)) t)
                           / real (card (cluster_set L (int i))))"
    unfolding sum_list_py_float[OF rng]
    by (simp add: py_range_def comp_def sum_list_sum_nth atLeast0LessThan)
  have bh: "fst (Ball_Hall (val_init X L))
      = (case fold_err (Ball_Hall_step X L) (py_range (int K)) 0 of
           Inl e \<Rightarrow> Inl e
         | Inr sumTotal \<Rightarrow> py_truediv sumTotal (py_int (int K)))"
    by (simp add: Ball_Hall_def Let_def val_init_def nu set_validation_def split: sum.splits)
  have div: "\<And>s. py_truediv (py_float s) (py_int (int K)) = Inr (py_float (s / real K))"
    using K by (simp add: py_truediv_def py_float_def py_int_def)
  have "fst (Ball_Hall (val_init X L))
      = Inr (py_float ((\<Sum>i<K. (\<Sum>t\<in>cluster_set L (int i). sq_dist_centroid X (cluster_set L (int i)) t)
                           / real (card (cluster_set L (int i)))) / real K))"
    unfolding bh loop tot sum.case div by (rule refl)
  then show ?thesis by (simp add: Ball_Hall_formula_def)
qed

theorem Ball_Hall_mean_dispersion_witness:
  "(0::nat) < 2 \<and> set [0, 0, 1] = int ` {0..<2} \<and> length [0, 0, 1::int] = length [[0], [1], [5::real]]
   \<and> rectangular [[0], [1], [5]]
   \<and> fst (Ball_Hall (val_init [[0], [1], [5]] [0, 0, 1])) = Inr (py_float (1 / 8))
   \<and> Ball_Hall_formula [[0], [1], [5]] [0, 0, 1] 2 = 1 / 8"
proof -
  have s: "set [0, 0, 1] = int ` {0..<2}" by (auto simp: eval_nat_numeral atLeastLessThanSuc)
  have r: "rectangular [[0], [1], [5]]" by (simp add: rectangular_def ncols_def)
  have c0: "cluster_set [0, 0, 1] 0 = {0, 1}"
    unfolding set_indices_of[symmetric] by (auto simp: indices_of_def eval_nat_numeral)
  have c1: "cluster_set [0, 0, 1] 1 = {2}"
    unfolding set_indices_of[symmetric] by (auto simp: indices_of_def eval_nat_numeral)
  have f: "Ball_Hall_formula [[0], [1], [5]] [0, 0, 1] 2 = 1 / 8"
    by (simp add: Ball_Hall_formula_def eval_nat_numeral c0 c1 sq_dist_centroid_def centroid_def
        ncols_def field_simps)
  have k: "(0::nat) < 2" by simp
  have l: "length [0, 0, 1::int] = length [[0], [1], [5::real]]" by simp
  have m: "fst (Ball_Hall (val_init [[0], [1], [5]] [0, 0, 1])) = Inr (py_float (1 / 8))"
    using Ball_Hall_mean_dispersion[OF k s l r] unfolding f .
  show ?thesis
    using k s l r m f by (intro conjI)
qed


subsection \<open>Relabelling the clusters\<close>

text \<open>
  A permutation of the cluster ids \<open>0, \<dots>, K-1\<close> is applied to the labels. The loops over
  the clusters then meet the same clusters in another order, and every loop only adds
  what a cluster contributes, so its result does not depend on the order.
\<close>

lemma indices_of_relabel:
  assumes "inj_on p (insert i (set L))"
  shows "indices_of (map p L) (p i) = indices_of L i"
proof -
  have "\<And>t. t < length L \<Longrightarrow> (p (L ! t) = p i) = (L ! t = i)"
    using assms by (auto simp: inj_on_def)
  then show ?thesis
    unfolding indices_of_def by (auto intro!: filter_cong)
qed

lemma set_py_range: "set (py_range (int K)) = {0..<int K}"
proof (intro equalityI subsetI)
  fix x assume "x \<in> set (py_range (int K))"
  then show "x \<in> {0..<int K}" by (auto simp: py_range_def)
next
  fix x assume "x \<in> {0..<int K}"
  then have "nat x \<in> {0..<K}" "x = int (nat x)" by auto
  then have "x \<in> int ` {0..<K}" by (rule rev_image_eqI)
  then show "x \<in> set (py_range (int K))" by (simp add: py_range_def)
qed

lemma distinct_py_range: "distinct (py_range n)"
  by (simp add: py_range_def distinct_map inj_on_def)

lemma mset_py_range_perm:
  assumes "bij_betw q {0..<int K} {0..<int K}"
  shows "mset (map q (py_range (int K))) = mset (py_range (int K))"
proof -
  have inj: "inj_on q (set (py_range (int K)))"
    using assms by (simp add: set_py_range bij_betw_def)
  have d: "distinct (map q (py_range (int K)))"
    using inj by (simp add: distinct_map distinct_py_range)
  have s: "set (map q (py_range (int K))) = set (py_range (int K))"
    using assms by (simp add: set_py_range bij_betw_def)
  show ?thesis
    using d s distinct_py_range by (metis set_eq_iff_mset_eq_distinct)
qed

lemma fold_err_pure:
  "(\<And>i a. i \<in> set xs \<Longrightarrow> f i a = Inr (h i a)) \<Longrightarrow> fold_err f xs a = Inr (fold h xs a)"
  by (induction xs arbitrary: a) simp_all

lemma fold_err_cong:
  "(\<And>i a. i \<in> set xs \<Longrightarrow> f i a = g i a) \<Longrightarrow> fold_err f xs a = fold_err g xs a"
  by (induction xs arbitrary: a) (simp_all split: sum.splits)

lemma fold_err_relabel:
  fixes f f' :: "int \<Rightarrow> 's \<Rightarrow> py_error + 's"
  assumes p: "bij_betw p {0..<int K} {0..<int K}"
    and cong: "\<And>i. i \<in> {0..<int K} \<Longrightarrow> f' (p i) = f i"
    and pure: "\<And>i. i \<in> {0..<int K} \<Longrightarrow> \<exists>u\<in>U. \<forall>a. f i a = Inr (u a)"
    and comm: "\<And>u v. u \<in> U \<Longrightarrow> v \<in> U \<Longrightarrow> u \<circ> v = v \<circ> u"
  shows "fold_err f' (py_range (int K)) a = fold_err f (py_range (int K)) a"
proof -
  let ?A = "{0..<int K}"
  let ?xs = "py_range (int K)"
  have "\<forall>i\<in>?A. \<exists>u. u \<in> U \<and> (\<forall>a. f i a = Inr (u a))" using pure by blast
  then obtain h where h: "\<And>i. i \<in> ?A \<Longrightarrow> h i \<in> U" "\<And>i a. i \<in> ?A \<Longrightarrow> f i a = Inr (h i a)"
    using bchoice[of ?A "\<lambda>i u. u \<in> U \<and> (\<forall>a. f i a = Inr (u a))"] by blast
  define q where "q = the_inv_into ?A p"
  have q: "bij_betw q ?A ?A" unfolding q_def by (rule bij_betw_the_inv_into[OF p])
  have pq: "\<And>j. j \<in> ?A \<Longrightarrow> p (q j) = j"
    unfolding q_def using p by (simp add: f_the_inv_into_f_bij_betw)
  have qA: "\<And>j. j \<in> ?A \<Longrightarrow> q j \<in> ?A" using q by (auto simp: bij_betw_def)
  have f': "\<And>j a. j \<in> set ?xs \<Longrightarrow> f' j a = Inr ((h \<circ> q) j a)"
  proof -
    fix j a assume "j \<in> set ?xs"
    then have j: "j \<in> ?A" by (simp add: set_py_range)
    have "f' j = f' (p (q j))" using pq[OF j] by simp
    also have "\<dots> = f (q j)" by (rule cong[OF qA[OF j]])
    finally show "f' j a = Inr ((h \<circ> q) j a)" using h(2)[OF qA[OF j]] by simp
  qed
  have 1: "fold_err f' ?xs a = Inr (fold (h \<circ> q) ?xs a)"
    by (rule fold_err_pure) (rule f')
  have 2: "fold_err f ?xs a = Inr (fold h ?xs a)"
    by (rule fold_err_pure) (simp add: h(2) set_py_range)
  have "fold h (map q ?xs) = fold h ?xs"
  proof (rule fold_multiset_equiv)
    show "mset (map q ?xs) = mset ?xs" by (rule mset_py_range_perm[OF q])
  next
    fix x y assume "x \<in> set (map q ?xs)" "y \<in> set (map q ?xs)"
    then have "x \<in> ?A" "y \<in> ?A" using qA by (auto simp: set_py_range)
    then show "h x \<circ> h y = h y \<circ> h x" using comm h(1) by blast
  qed
  then have "fold (h \<circ> q) ?xs a = fold h ?xs a" by (simp add: fold_map)
  then show ?thesis using 1 2 by simp
qed

lemma relabel_inj:
  assumes "bij_betw p {0..<int K} {0..<int K}" "set L = {0..<int K}" "i \<in> {0..<int K}"
  shows "indices_of (map p L) (p i) = indices_of L i"
proof (rule indices_of_relabel)
  have "insert i (set L) = {0..<int K}" using assms(2,3) by (simp add: insert_absorb)
  then show "inj_on p (insert i (set L))" using assms(1) by (simp add: bij_betw_def)
qed

lemma indices_of_nonempty:
  assumes "set L = {0..<int K}" "i \<in> {0..<int K}"
  shows "indices_of L i \<noteq> []"
proof -
  have "i \<in> set L" using assms by simp
  then obtain t where "t < length L" "L ! t = i" by (auto simp: in_set_conv_nth)
  then have "t \<in> set (indices_of L i)" by (simp add: indices_of_def)
  then show ?thesis by auto
qed

lemma np_rows_indices:
  assumes "length L = length X"
  shows "np_rows X (indices_of L i) = Inr (map (\<lambda>t. X ! t) (indices_of L i))"
  using assms by (simp add: np_rows_def list_all_iff indices_of_def)

lemma py_truediv_int_pos: "0 < n \<Longrightarrow> \<exists>q. py_truediv x (py_int (int n)) = Inr q"
  by (simp add: py_truediv_def py_int_def)

lemma numCluster_contiguous:
  assumes "L \<noteq> []" "set L = {0..<K}"
  shows "numCluster L = Inr K"
proof -
  have "{0..<K} \<noteq> {}" using assms by (metis set_empty)
  then have Kpos: "0 < K" by simp
  have "Max (set L) = K - 1"
    using assms Kpos by (simp add: Max_eq_iff)
  then show "numCluster L = Inr K" using assms by (simp add: numCluster_def py_max_int_Max)
qed

lemma numCluster_relabel:
  assumes "bij_betw p {0..<int K} {0..<int K}" "set L = {0..<int K}" "L \<noteq> []"
  shows "numCluster L = Inr (int K)" "numCluster (map p L) = Inr (int K)"
proof -
  have "set (map p L) = {0..<int K}" using assms by (simp add: bij_betw_def)
  moreover have "map p L \<noteq> []" using assms by simp
  ultimately show "numCluster (map p L) = Inr (int K)"
    by (intro numCluster_contiguous)
  show "numCluster L = Inr (int K)"
    using assms by (intro numCluster_contiguous)
qed

lemma numCluster_unique_relabel:
  assumes "bij_betw p {0..<int K} {0..<int K}" "set L = {0..<int K}"
  shows "numCluster_unique L = int K" "numCluster_unique (map p L) = int K"
proof -
  have "set (map p L) = {0..<int K}" using assms by (simp add: bij_betw_def)
  then show "numCluster_unique (map p L) = int K" by (simp add: numCluster_unique_card)
  show "numCluster_unique L = int K" using assms by (simp add: numCluster_unique_card)
qed

lemma fold_err_relabel_add:
  fixes f f' :: "int \<Rightarrow> 's::comm_monoid_add \<Rightarrow> py_error + 's"
  assumes p: "bij_betw p {0..<int K} {0..<int K}"
    and cong: "\<And>i. i \<in> {0..<int K} \<Longrightarrow> f' (p i) = f i"
    and pure: "\<And>i. i \<in> {0..<int K} \<Longrightarrow> \<exists>g. \<forall>a. f i a = Inr (a + g)"
  shows "fold_err f' (py_range (int K)) a = fold_err f (py_range (int K)) a"
proof (rule fold_err_relabel[where p = p and f = f and f' = f' and U = "range (\<lambda>g a. a + g)"])
  show "bij_betw p {0..<int K} {0..<int K}" by (rule p)
next
  fix i assume "i \<in> {0..<int K}"
  then show "f' (p i) = f i" by (rule cong)
next
  fix i assume "i \<in> {0..<int K}"
  from pure[OF this] obtain g where "\<forall>a. f i a = Inr (a + g)" by blast
  then show "\<exists>u\<in>range (\<lambda>g a. a + g). \<forall>a. f i a = Inr (u a)" by auto
next
  fix u v :: "'s \<Rightarrow> 's" assume "u \<in> range (\<lambda>g a. a + g)" "v \<in> range (\<lambda>g a. a + g)"
  then show "u \<circ> v = v \<circ> u" by (auto simp: fun_eq_iff ac_simps)
qed

lemma fold_err_relabel_add2:
  fixes f f' :: "int \<Rightarrow> 's::comm_monoid_add \<times> 't::comm_monoid_add \<Rightarrow> py_error + 's \<times> 't"
  assumes p: "bij_betw p {0..<int K} {0..<int K}"
    and cong: "\<And>i. i \<in> {0..<int K} \<Longrightarrow> f' (p i) = f i"
    and pure: "\<And>i. i \<in> {0..<int K} \<Longrightarrow> \<exists>g h. \<forall>a. f i a = Inr (fst a + g, snd a + h)"
  shows "fold_err f' (py_range (int K)) a = fold_err f (py_range (int K)) a"
proof (rule fold_err_relabel[where p = p and f = f and f' = f'
      and U = "range (\<lambda>gh a. (fst a + fst gh, snd a + snd gh))"])
  show "bij_betw p {0..<int K} {0..<int K}" by (rule p)
next
  fix i assume "i \<in> {0..<int K}"
  then show "f' (p i) = f i" by (rule cong)
next
  fix i assume "i \<in> {0..<int K}"
  from pure[OF this] obtain g h where "\<forall>a. f i a = Inr (fst a + g, snd a + h)" by blast
  then show "\<exists>u\<in>range (\<lambda>gh a. (fst a + fst gh, snd a + snd gh)). \<forall>a. f i a = Inr (u a)"
    by auto
next
  fix u v :: "'s \<times> 't \<Rightarrow> 's \<times> 't"
  assume "u \<in> range (\<lambda>gh a. (fst a + fst gh, snd a + snd gh))"
         "v \<in> range (\<lambda>gh a. (fst a + fst gh, snd a + snd gh))"
  then show "u \<circ> v = v \<circ> u" by (auto simp: fun_eq_iff ac_simps)
qed

lemma Ball_Hall_step_cong:
  "indices_of L' i' = indices_of L i \<Longrightarrow> Ball_Hall_step X L' i' = Ball_Hall_step X L i"
  by (simp add: Ball_Hall_step_def fun_eq_iff)

lemma Ball_Hall_step_pure:
  assumes len: "length L = length X" and L: "set L = {0..<int K}" and i: "i \<in> {0..<int K}"
  shows "\<exists>g. \<forall>a. Ball_Hall_step X L i a = Inr (a + g)"
proof -
  let ?rows = "map (\<lambda>t. X ! t) (indices_of L i)"
  have "0 < length (indices_of L i)" using indices_of_nonempty[OF L i] by simp
  from py_truediv_int_pos[OF this] obtain q where
    "py_truediv (sum_sq_dist ?rows (np_mean0 (ncols X) ?rows)) (py_int (int (length (indices_of L i)))) = Inr q"
    by blast
  then have "\<forall>a. Ball_Hall_step X L i a = Inr (a + q)"
    by (simp add: Ball_Hall_step_def Let_def np_rows_indices[OF len])
  then show ?thesis by blast
qed

lemma Ball_Hall_relabel:
  assumes p: "bij_betw p {0..<int K} {0..<int K}" and L: "set L = {0..<int K}"
    and len: "length L = length X"
  shows "fst (Ball_Hall (val_init X (map p L))) = fst (Ball_Hall (val_init X L))"
proof -
  have loop: "\<And>a. fold_err (Ball_Hall_step X (map p L)) (py_range (int K)) a
      = fold_err (Ball_Hall_step X L) (py_range (int K)) a"
  proof (rule fold_err_relabel_add[where p = p])
    show "bij_betw p {0..<int K} {0..<int K}" by (rule p)
  next
    fix i assume i: "i \<in> {0..<int K}"
    show "Ball_Hall_step X (map p L) (p i) = Ball_Hall_step X L i"
      by (rule Ball_Hall_step_cong[OF relabel_inj[OF p L i]])
    show "\<exists>g. \<forall>a. Ball_Hall_step X L i a = Inr (a + g)"
      by (rule Ball_Hall_step_pure[OF len L i])
  qed
  show ?thesis
    by (simp add: Ball_Hall_def Let_def val_init_def numCluster_unique_relabel[OF p L] loop
        set_validation_def split: sum.splits)
qed

lemma c_index_step_cong:
  "indices_of L' i' = indices_of L i \<Longrightarrow> c_index_step X L' i' = c_index_step X L i"
  by (simp add: c_index_step_def fun_eq_iff)

lemma c_index_relabel:
  assumes p: "bij_betw p {0..<int K} {0..<int K}" and L: "set L = {0..<int K}"
    and len: "length L = length X"
  shows "fst (c_index (val_init X (map p L))) = fst (c_index (val_init X L))"
proof (cases "L = []")
  case True
  then show ?thesis by simp
next
  case False
  have loop: "\<And>a. fold_err (c_index_step X (map p L)) (py_range (int K)) a
      = fold_err (c_index_step X L) (py_range (int K)) a"
  proof (rule fold_err_relabel_add2[where p = p])
    show "bij_betw p {0..<int K} {0..<int K}" by (rule p)
  next
    fix i assume i: "i \<in> {0..<int K}"
    show "c_index_step X (map p L) (p i) = c_index_step X L i"
      by (rule c_index_step_cong[OF relabel_inj[OF p L i]])
    show "\<exists>g h. \<forall>a. c_index_step X L i a = Inr (fst a + g, snd a + h)"
      by (simp add: c_index_step_def Let_def np_rows_indices[OF len]) blast
  qed
  show ?thesis
    by (simp add: c_index_def Let_def val_init_def numCluster_relabel[OF p L False] loop
        set_validation_def split: sum.splits prod.splits)
qed

lemma log_ss_ratio_step_cong:
  "indices_of L' i' = indices_of L i \<Longrightarrow> log_ss_ratio_step X L' c i' = log_ss_ratio_step X L c i"
  by (simp add: log_ss_ratio_step_def fun_eq_iff)

lemma log_ss_ratio_relabel:
  assumes p: "bij_betw p {0..<int K} {0..<int K}" and L: "set L = {0..<int K}"
    and len: "length L = length X"
  shows "fst (log_ss_ratio (val_init X (map p L))) = fst (log_ss_ratio (val_init X L))"
proof (cases "L = []")
  case True
  then show ?thesis by simp
next
  case False
  have loop: "\<And>c a. fold_err (log_ss_ratio_step X (map p L) c) (py_range (int K)) a
      = fold_err (log_ss_ratio_step X L c) (py_range (int K)) a"
  proof (rule fold_err_relabel_add2[where p = p])
    show "bij_betw p {0..<int K} {0..<int K}" by (rule p)
  next
    fix c i assume i: "i \<in> {0..<int K}"
    show "log_ss_ratio_step X (map p L) c (p i) = log_ss_ratio_step X L c i"
      by (rule log_ss_ratio_step_cong[OF relabel_inj[OF p L i]])
    show "\<exists>g h. \<forall>a. log_ss_ratio_step X L c i a = Inr (fst a + g, snd a + h)"
      by (simp add: log_ss_ratio_step_def Let_def np_rows_indices[OF len]) blast
  qed
  show ?thesis
    by (simp add: log_ss_ratio_def Let_def val_init_def numCluster_relabel[OF p L False] loop
        set_validation_def split: sum.splits prod.splits)
qed

lemma Banfeld_Raferty_loop_fold:
  "fst (Banfeld_Raferty_loop xs s self) =
     (case fold_err
             (\<lambda>i st. case Banfeld_Raferty_step (dataMatrix self) (classLabel self) i (fst st) of
                        Inl e \<Rightarrow> Inl e
                      | Inr None \<Rightarrow> Inr st
                      | Inr (Some s') \<Rightarrow> Inr (s', s'))
             xs (s, validation self) of
        Inl e \<Rightarrow> Inl e
      | Inr st \<Rightarrow> Inr (snd st))"
proof (induction xs arbitrary: s self)
  case Nil
  then show ?case by simp
next
  case (Cons i xs)
  show ?case
  proof (cases "Banfeld_Raferty_step (dataMatrix self) (classLabel self) i s")
    case (Inl e)
    then show ?thesis by simp
  next
    case (Inr r)
    show ?thesis
    proof (cases r)
      case None
      then show ?thesis using Inr Cons.IH[of s self] by simp
    next
      case (Some s')
      then show ?thesis using Inr Cons.IH[of s' "self\<lparr>validation := s'\<rparr>"] by simp
    qed
  qed
qed

lemma Banfeld_Raferty_step_cong:
  "indices_of L' i' = indices_of L i \<Longrightarrow>
   Banfeld_Raferty_step X L' i' = Banfeld_Raferty_step X L i"
  by (simp add: Banfeld_Raferty_step_def fun_eq_iff)

lemma math_log_defined: "\<not> py_le q (py_int 0) \<Longrightarrow> \<exists>lg. math_log q = Inr lg"
  by (cases q; cases "val_of q")
     (auto simp: math_log_def py_le_def py_int_def fl_le_def fl_eq_def)

lemma Banfeld_Raferty_step_pure:
  assumes len: "length L = length X" and L: "set L = {0..<int K}" and i: "i \<in> {0..<int K}"
  shows "(\<forall>s. Banfeld_Raferty_step X L i s = Inr None)
       \<or> (\<exists>g. \<forall>s. Banfeld_Raferty_step X L i s = Inr (Some (s + g)))"
proof -
  let ?rows = "map (\<lambda>t. X ! t) (indices_of L i)"
  have "0 < length (indices_of L i)" using indices_of_nonempty[OF L i] by simp
  from py_truediv_int_pos[OF this] obtain q where q:
    "py_truediv (sum_sq_dist ?rows (np_mean0 (ncols X) ?rows)) (py_int (int (length (indices_of L i)))) = Inr q"
    by blast
  show ?thesis
  proof (cases "py_le q (py_int 0)")
    case True
    then show ?thesis
      by (simp add: Banfeld_Raferty_step_def Let_def np_rows_indices[OF len] q)
  next
    case False
    from math_log_defined[OF False] obtain lg where "math_log q = Inr lg" by blast
    then show ?thesis using False
      by (simp add: Banfeld_Raferty_step_def Let_def np_rows_indices[OF len] q) blast
  qed
qed

lemma Banfeld_Raferty_relabel:
  assumes p: "bij_betw p {0..<int K} {0..<int K}" and L: "set L = {0..<int K}"
    and len: "length L = length X"
  shows "fst (Banfeld_Raferty (val_init X (map p L))) = fst (Banfeld_Raferty (val_init X L))"
proof (cases "L = []")
  case True
  then show ?thesis by simp
next
  case False
  let ?U = "insert id (range (\<lambda>g st. (fst st + g, fst st + g)))
            :: (pynum \<times> pynum \<Rightarrow> pynum \<times> pynum) set"
  let ?f = "\<lambda>L i st. case Banfeld_Raferty_step X L i (fst st) of
                        Inl e \<Rightarrow> Inl e
                      | Inr None \<Rightarrow> Inr st
                      | Inr (Some s') \<Rightarrow> Inr (s', s')"
  have loop: "\<And>a. fold_err (?f (map p L)) (py_range (int K)) a = fold_err (?f L) (py_range (int K)) a"
  proof (rule fold_err_relabel[where p = p and U = ?U])
    show "bij_betw p {0..<int K} {0..<int K}" by (rule p)
  next
    fix i assume i: "i \<in> {0..<int K}"
    show "?f (map p L) (p i) = ?f L i"
      by (simp add: Banfeld_Raferty_step_cong[OF relabel_inj[OF p L i]])
  next
    fix i assume i: "i \<in> {0..<int K}"
    from Banfeld_Raferty_step_pure[OF len L i]
    show "\<exists>u\<in>?U. \<forall>a. ?f L i a = Inr (u a)"
    proof
      assume "\<forall>s. Banfeld_Raferty_step X L i s = Inr None"
      then have "\<forall>a. ?f L i a = Inr (id a)" by simp
      then show ?thesis by blast
    next
      assume "\<exists>g. \<forall>s. Banfeld_Raferty_step X L i s = Inr (Some (s + g))"
      then obtain g where "\<forall>s. Banfeld_Raferty_step X L i s = Inr (Some (s + g))" by blast
      then have "\<forall>a. ?f L i a = Inr ((\<lambda>st. (fst st + g, fst st + g)) a)" by simp
      then show ?thesis by auto
    qed
  next
    fix u v assume "u \<in> ?U" "v \<in> ?U"
    then show "u \<circ> v = v \<circ> u" by (auto simp: fun_eq_iff ac_simps)
  qed
  show ?thesis
    by (simp add: Banfeld_Raferty_def Let_def numCluster_relabel[OF p L False]
        Banfeld_Raferty_loop_fold val_init_def loop)
qed

lemma map2_comm3:
  assumes "\<And>w a b. f (f w a) b = f (f w b) a"
  shows "map2 f (map2 f ws as) bs = map2 f (map2 f ws bs) as"
proof (induction ws arbitrary: as bs)
  case Nil
  then show ?case by simp
next
  case (Cons w ws)
  show ?case by (cases as; cases bs) (simp_all add: assms Cons.IH)
qed

lemma mat_add_comm3: "mat_add (mat_add W A) B = mat_add (mat_add W B) A"
proof -
  have inner: "\<And>(w::real list) a b. map2 (+) (map2 (+) w a) b = map2 (+) (map2 (+) w b) a"
    by (rule map2_comm3) simp
  show ?thesis unfolding mat_add_def by (rule map2_comm3) (rule inner)
qed

lemma scatter_step_cong:
  "indices_of L' i' = indices_of L i \<Longrightarrow> scatter_step m X L' i' = scatter_step m X L i"
  by (simp add: scatter_step_def fun_eq_iff)

lemma scatter_loop_relabel:
  assumes p: "bij_betw p {0..<int K} {0..<int K}" and L: "set L = {0..<int K}"
    and len: "length L = length X"
  shows "fold_err (scatter_step m X (map p L)) (py_range (int K)) a
       = fold_err (scatter_step m X L) (py_range (int K)) a"
proof (rule fold_err_relabel[where p = p and U = "range (\<lambda>G W. mat_add W G)"])
  show "bij_betw p {0..<int K} {0..<int K}" by (rule p)
next
  fix i assume i: "i \<in> {0..<int K}"
  show "scatter_step m X (map p L) (p i) = scatter_step m X L i"
    by (rule scatter_step_cong[OF relabel_inj[OF p L i]])
next
  fix i assume i: "i \<in> {0..<int K}"
  show "\<exists>u\<in>range (\<lambda>G W. mat_add W G). \<forall>a. scatter_step m X L i a = Inr (u a)"
    by (auto simp: scatter_step_def Let_def np_rows_indices[OF len])
next
  fix u v :: "matrix \<Rightarrow> matrix"
  assume "u \<in> range (\<lambda>G W. mat_add W G)" "v \<in> range (\<lambda>G W. mat_add W G)"
  then show "u \<circ> v = v \<circ> u" by (auto simp: fun_eq_iff mat_add_comm3)
qed

lemma det_ratio_relabel_gen:
  assumes p: "bij_betw p {0..<int K} {0..<int K}" and L: "set L = {0..<int K}"
    and len: "length L = length X"
  shows "fst (det_ratio \<lparr>dataMatrix = X, classLabel = map p L, validation = v, description = d\<rparr>)
       = fst (det_ratio \<lparr>dataMatrix = X, classLabel = L, validation = v, description = d\<rparr>)"
proof (cases "L = []")
  case True
  then show ?thesis by simp
next
  case False
  show ?thesis
    by (simp add: det_ratio_def Let_def numCluster_relabel[OF p L False]
        scatter_loop_relabel[OF p L len] set_validation_def split: sum.splits)
qed

lemma ksq_detw_index_relabel:
  assumes p: "bij_betw p {0..<int K} {0..<int K}" and L: "set L = {0..<int K}"
    and len: "length L = length X"
  shows "fst (ksq_detw_index (val_init X (map p L))) = fst (ksq_detw_index (val_init X L))"
proof (cases "L = []")
  case True
  then show ?thesis by simp
next
  case False
  show ?thesis
    by (simp add: ksq_detw_index_def Let_def val_init_def numCluster_relabel[OF p L False]
        scatter_loop_relabel[OF p L len] set_validation_def split: sum.splits)
qed

lemma log_det_ratio_fst:
  "fst (log_det_ratio \<lparr>dataMatrix = X, classLabel = L, validation = v, description = d\<rparr>) =
     (case fst (det_ratio \<lparr>dataMatrix = X, classLabel = L, validation = v,
                  description = ''The log determinant ratio index, a measure of connectedness''\<rparr>) of
        Inl e \<Rightarrow> Inl e
      | Inr r \<Rightarrow>
          (case math_log r of
             Inl e \<Rightarrow> Inl e
           | Inr lg \<Rightarrow> Inr (py_mul (py_int (int (length L))) lg)))"
  by (simp add: log_det_ratio_def Let_def set_validation_def split: prod.splits sum.splits)

lemma log_det_ratio_relabel:
  assumes p: "bij_betw p {0..<int K} {0..<int K}" and L: "set L = {0..<int K}"
    and len: "length L = length X"
  shows "fst (log_det_ratio (val_init X (map p L))) = fst (log_det_ratio (val_init X L))"
  unfolding val_init_def log_det_ratio_fst det_ratio_relabel_gen[OF p L len] length_map
  by (rule refl)

lemma det_ratio_relabel:
  assumes p: "bij_betw p {0..<int K} {0..<int K}" and L: "set L = {0..<int K}"
    and len: "length L = length X"
  shows "fst (det_ratio (val_init X (map p L))) = fst (det_ratio (val_init X L))"
  unfolding val_init_def by (rule det_ratio_relabel_gen[OF p L len])

lemma Ratkowsky_Lance_cluster_cong:
  "indices_of L' i' = indices_of L i \<Longrightarrow>
   Ratkowsky_Lance_cluster X L' c i' = Ratkowsky_Lance_cluster X L c i"
  by (simp add: Ratkowsky_Lance_cluster_def fun_eq_iff)

lemma Ratkowsky_Lance_relabel:
  assumes p: "bij_betw p {0..<int K} {0..<int K}" and L: "set L = {0..<int K}"
    and len: "length L = length X"
  shows "fst (Ratkowsky_Lance (val_init X (map p L))) = fst (Ratkowsky_Lance (val_init X L))"
proof (cases "L = []")
  case True
  then show ?thesis by simp
next
  case False
  have inner: "\<And>c a. fold_err (Ratkowsky_Lance_cluster X (map p L) c) (py_range (int K)) a
      = fold_err (Ratkowsky_Lance_cluster X L c) (py_range (int K)) a"
  proof (rule fold_err_relabel_add[where p = p])
    show "bij_betw p {0..<int K} {0..<int K}" by (rule p)
  next
    fix c i assume i: "i \<in> {0..<int K}"
    show "Ratkowsky_Lance_cluster X (map p L) c (p i) = Ratkowsky_Lance_cluster X L c i"
      by (rule Ratkowsky_Lance_cluster_cong[OF relabel_inj[OF p L i]])
    show "\<exists>g. \<forall>a. Ratkowsky_Lance_cluster X L c i a = Inr (a + g)"
      by (simp add: Ratkowsky_Lance_cluster_def Let_def np_rows_indices[OF len]) blast
  qed
  have attr: "Ratkowsky_Lance_attribute X (map p L) (int K) = Ratkowsky_Lance_attribute X L (int K)"
    by (simp add: Ratkowsky_Lance_attribute_def fun_eq_iff inner)
  show ?thesis
    by (simp add: Ratkowsky_Lance_def Let_def val_init_def numCluster_relabel[OF p L False] attr
        set_validation_def split: sum.splits)
qed

lemma row_dist_labels: "row_dist [real_of_int a, 0] [real_of_int b, 0] = \<bar>real_of_int a - real_of_int b\<bar>"
  by (simp add: row_dist_def)

lemma pdist_labels_same_zeros:
  assumes "inj_on p (set L)"
  shows "list_all2 same_zeros (pdist (label_rows (map p L))) (pdist (label_rows L))"
  using assms
proof (induction L)
  case Nil
  then show ?case by (simp add: label_rows_def)
next
  case (Cons l ls)
  have inj: "inj_on p (set ls)" using Cons.prems by (simp add: inj_on_def)
  have head: "list_all2 same_zeros
      (map (row_dist [real_of_int (p l), 0]) (label_rows (map p ls)))
      (map (row_dist [real_of_int l, 0]) (label_rows ls))"
    unfolding label_rows_def list_all2_map1 list_all2_map2 map_map comp_def
  proof (rule list_all2_all_nthI)
    show "length ls = length ls" by simp
  next
    fix n assume "n < length ls"
    then have "ls ! n \<in> set ls" by simp
    then have "(p l = p (ls ! n)) = (l = ls ! n)" using Cons.prems by (auto simp: inj_on_def)
    then show "same_zeros (row_dist [real_of_int (p l), 0] [real_of_int (p (ls ! n)), 0])
                 (row_dist [real_of_int l, 0] [real_of_int (ls ! n), 0])"
      by (simp add: same_zeros_def row_dist_labels)
  qed
  have "pdist (label_rows (map p (l # ls)))
        = map (row_dist [real_of_int (p l), 0]) (label_rows (map p ls)) @ pdist (label_rows (map p ls))"
    by (simp add: label_rows_def)
  moreover have "pdist (label_rows (l # ls))
        = map (row_dist [real_of_int l, 0]) (label_rows ls) @ pdist (label_rows ls)"
    by (simp add: label_rows_def)
  ultimately show ?case using head Cons.IH[OF inj] by (simp add: list_all2_appendI)
qed

lemma heter_homo_same_zeros:
  assumes "list_all2 same_zeros vb' vb"
  shows "heter_homo vb' i j = heter_homo vb i j"
proof -
  have len: "length vb' = length vb" using assms by (rule list_all2_lengthD)
  have nth: "\<And>k. k < length vb \<Longrightarrow> same_zeros (vb' ! k) (vb ! k)"
    using assms by (simp add: list_all2_conv_all_nth)
  show ?thesis
  proof (cases "i < length vb")
    case False
    then show ?thesis by (simp add: heter_homo_def np_get_def len)
  next
    case i: True
    have pi: "(vb' ! i > 0) = (vb ! i > 0)" using nth[OF i] by (auto simp: same_zeros_def)
    show ?thesis
    proof (cases "j < length vb")
      case False
      then show ?thesis using i pi by (simp add: heter_homo_def np_get_def len)
    next
      case True
      then show ?thesis using i pi nth[OF True]
        by (simp add: heter_homo_def np_get_def len same_zeros_def)
    qed
  qed
qed

lemma homo_heter_same_zeros:
  assumes "list_all2 same_zeros vb' vb"
  shows "homo_heter vb' i j = homo_heter vb i j"
proof -
  have len: "length vb' = length vb" using assms by (rule list_all2_lengthD)
  have nth: "\<And>k. k < length vb \<Longrightarrow> same_zeros (vb' ! k) (vb ! k)"
    using assms by (simp add: list_all2_conv_all_nth)
  show ?thesis
  proof (cases "i < length vb")
    case False
    then show ?thesis by (simp add: homo_heter_def np_get_def len)
  next
    case i: True
    have pi: "(vb' ! i = 0) = (vb ! i = 0)" using nth[OF i] by (auto simp: same_zeros_def)
    show ?thesis
    proof (cases "j < length vb")
      case False
      then show ?thesis using i pi by (simp add: homo_heter_def np_get_def len)
    next
      case True
      have "(vb' ! j > 0) = (vb ! j > 0)" using nth[OF True] by (auto simp: same_zeros_def)
      then show ?thesis using i pi True
        by (simp add: homo_heter_def np_get_def len)
    qed
  qed
qed

lemma heter_homo_True: "heter_homo vb i j = Inr True \<Longrightarrow> j < length vb \<and> vb ! j = 0"
  by (auto simp: heter_homo_def np_get_def split: if_splits)

lemma homo_heter_True: "homo_heter vb i j = Inr True \<Longrightarrow> i < length vb \<and> vb ! i = 0"
  by (auto simp: homo_heter_def np_get_def split: if_splits)

lemma Baker_Hubert_Gamma_pair_same_zeros:
  assumes "list_all2 same_zeros vb' vb"
  shows "Baker_Hubert_Gamma_pair pd vb' i j st = Baker_Hubert_Gamma_pair pd vb i j st"
proof -
  have hh: "heter_homo vb' i j = heter_homo vb i j" by (rule heter_homo_same_zeros[OF assms])
  have hh2: "homo_heter vb' i j = homo_heter vb i j" by (rule homo_heter_same_zeros[OF assms])
  have j0: "heter_homo vb i j = Inr True \<Longrightarrow> vb' ! j = vb ! j"
    using heter_homo_True[of vb i j] heter_homo_True[of vb' i j] hh by simp
  have i0: "homo_heter vb i j = Inr True \<Longrightarrow> vb' ! i = vb ! i"
    using homo_heter_True[of vb i j] homo_heter_True[of vb' i j] hh2 by simp
  show ?thesis
  proof (cases "heter_homo vb i j")
    case (Inl e)
    then show ?thesis by (simp add: Baker_Hubert_Gamma_pair_def hh)
  next
    case c1: (Inr c1)
    show ?thesis
    proof (cases "homo_heter vb i j")
      case (Inl e)
      then show ?thesis using c1 j0 by (cases c1) (simp_all add: Baker_Hubert_Gamma_pair_def hh hh2 Let_def)
    next
      case c2: (Inr c2)
      show ?thesis using c1 c2 j0 i0
        by (cases c1; cases c2) (simp_all add: Baker_Hubert_Gamma_pair_def hh hh2 Let_def)
    qed
  qed
qed

lemma g_plus_index_pair_same_zeros:
  assumes "list_all2 same_zeros vb' vb"
  shows "g_plus_index_pair pd vb' i j st = g_plus_index_pair pd vb i j st"
proof -
  have hh: "heter_homo vb' i j = heter_homo vb i j" by (rule heter_homo_same_zeros[OF assms])
  have hh2: "homo_heter vb' i j = homo_heter vb i j" by (rule homo_heter_same_zeros[OF assms])
  have j0: "heter_homo vb i j = Inr True \<Longrightarrow> vb' ! j = vb ! j"
    using heter_homo_True[of vb i j] heter_homo_True[of vb' i j] hh by simp
  have i0: "homo_heter vb i j = Inr True \<Longrightarrow> vb' ! i = vb ! i"
    using homo_heter_True[of vb i j] homo_heter_True[of vb' i j] hh2 by simp
  show ?thesis
  proof (cases "heter_homo vb i j")
    case (Inl e)
    then show ?thesis by (simp add: g_plus_index_pair_def hh)
  next
    case c1: (Inr c1)
    show ?thesis
    proof (cases "homo_heter vb i j")
      case (Inl e)
      then show ?thesis using c1 j0 by (cases c1) (simp_all add: g_plus_index_pair_def hh hh2 Let_def)
    next
      case c2: (Inr c2)
      show ?thesis using c1 c2 j0 i0
        by (cases c1; cases c2) (simp_all add: g_plus_index_pair_def hh hh2 Let_def)
    qed
  qed
qed

lemma Baker_Hubert_Gamma_relabel:
  assumes p: "bij_betw p {0..<int K} {0..<int K}" and L: "set L = {0..<int K}"
  shows "fst (Baker_Hubert_Gamma (val_init X (map p L))) = fst (Baker_Hubert_Gamma (val_init X L))"
proof -
  have "inj_on p (set L)" using p L by (simp add: bij_betw_def)
  then have sz: "list_all2 same_zeros (pdist (label_rows (map p L))) (pdist (label_rows L))"
    by (rule pdist_labels_same_zeros)
  have pair: "Baker_Hubert_Gamma_pair (pdist X) (pdist (label_rows (map p L)))
      = Baker_Hubert_Gamma_pair (pdist X) (pdist (label_rows L))"
    by (intro ext) (rule Baker_Hubert_Gamma_pair_same_zeros[OF sz])
  show ?thesis
    by (simp add: Baker_Hubert_Gamma_def Let_def val_init_def pair set_validation_def split: sum.splits prod.splits)
qed

lemma g_plus_index_relabel:
  assumes p: "bij_betw p {0..<int K} {0..<int K}" and L: "set L = {0..<int K}"
  shows "fst (g_plus_index (val_init X (map p L))) = fst (g_plus_index (val_init X L))"
proof -
  have "inj_on p (set L)" using p L by (simp add: bij_betw_def)
  then have sz: "list_all2 same_zeros (pdist (label_rows (map p L))) (pdist (label_rows L))"
    by (rule pdist_labels_same_zeros)
  have pair: "g_plus_index_pair (pdist X) (pdist (label_rows (map p L)))
      = g_plus_index_pair (pdist X) (pdist (label_rows L))"
    by (intro ext) (rule g_plus_index_pair_same_zeros[OF sz])
  show ?thesis
    by (simp add: g_plus_index_def Let_def val_init_def pair set_validation_def split: sum.splits)
qed

lemma sum_list_mset_cong:
  fixes f :: "'b \<Rightarrow> 'a::comm_monoid_add"
  assumes "mset xs = mset ys"
  shows "sum_list (map f xs) = sum_list (map f ys)"
proof -
  have "sum_list (map f xs) = sum_mset (image_mset f (mset xs))"
    by (simp flip: sum_mset_sum_list)
  also have "\<dots> = sum_mset (image_mset f (mset ys))" using assms by simp
  also have "\<dots> = sum_list (map f ys)" by (simp flip: sum_mset_sum_list)
  finally show ?thesis .
qed

lemma sum_list_relabel:
  fixes g g' :: "int \<Rightarrow> 'a::comm_monoid_add"
  assumes p: "bij_betw p {0..<int K} {0..<int K}"
    and rel: "\<And>i. i \<in> {0..<int K} \<Longrightarrow> g' (p i) = g i"
  shows "sum_list (map g' (py_range (int K))) = sum_list (map g (py_range (int K)))"
proof -
  have "sum_list (map g' (py_range (int K))) = sum_list (map g' (map p (py_range (int K))))"
    by (rule sum_list_mset_cong) (rule mset_py_range_perm[OF p, symmetric])
  also have "\<dots> = sum_list (map g (py_range (int K)))"
    unfolding map_map comp_def
    by (rule arg_cong[where f = sum_list], rule map_cong[OF refl]) (simp add: rel set_py_range)
  finally show ?thesis .
qed

lemma set_map_relabel:
  assumes p: "bij_betw p {0..<int K} {0..<int K}"
    and rel: "\<And>i. i \<in> {0..<int K} \<Longrightarrow> g' (p i) = g i"
  shows "set (map g' (py_range (int K))) = set (map g (py_range (int K)))"
proof -
  have "set (map g' (py_range (int K))) = g' ` (p ` {0..<int K})"
    using p by (simp add: set_py_range bij_betw_def)
  also have "\<dots> = g ` {0..<int K}"
    unfolding image_image by (rule image_cong[OF refl]) (rule rel)
  finally show ?thesis by (simp add: set_py_range)
qed

lemma py_max_np_float:
  assumes "rs \<noteq> []"
  shows "py_max (map np_float rs) = Inr (np_float (Max (set rs)))"
proof (cases rs)
  case Nil
  then show ?thesis using assms by simp
next
  case (Cons x xs)
  have "\<And>m. fold (\<lambda>y m. if py_lt m y then y else m) (map np_float xs) (np_float m)
        = np_float (Max (set (m # xs)))"
  proof (induction xs)
    case Nil
    then show ?case by simp
  next
    case (Cons a xs)
    have step: "(if py_lt (np_float m) (np_float a) then np_float a else np_float m)
        = np_float (max m a)"
      by (simp add: py_lt_def np_float_def max_def)
    show ?case
      unfolding list.map fold_simps step Cons.IH
      by (cases "set xs = {}") (auto simp: max_def insert_commute)
  qed
  then show ?thesis using Cons by simp
qed

lemma fold_PBM_index_member:
  "fold (PBM_index_member cc dc) rows st =
     (fst st + sum_list (map (\<lambda>m. euclidean (map Fin m) cc) rows),
      snd st + sum_list (map (\<lambda>m. euclidean (map Fin m) dc) rows))"
  by (induction rows arbitrary: st) (simp_all add: PBM_index_member_def add.assoc)

lemma fold_err_PBM:
  assumes "\<And>i st. i \<in> set xs \<Longrightarrow>
     f i st = Inr ((fst (fst st) + e i, snd (fst st) + t i), snd st @ [c i])"
  shows "fold_err f xs ((ew, et), l) =
     Inr ((ew + sum_list (map e xs), et + sum_list (map t xs)), l @ map c xs)"
  using assms by (induction xs arbitrary: ew et l) (simp_all add: add.assoc)

lemma PBM_index_step_cong:
  "indices_of L' i' = indices_of L i \<Longrightarrow> PBM_index_step X L' dc i' = PBM_index_step X L dc i"
  by (simp add: PBM_index_step_def fun_eq_iff)

lemma PBM_index_relabel:
  assumes p: "bij_betw p {0..<int K} {0..<int K}" and L: "set L = {0..<int K}"
    and len: "length L = length X"
  shows "fst (PBM_index (val_init X (map p L))) = fst (PBM_index (val_init X L))"
proof (cases "L = []")
  case True
  then show ?thesis by simp
next
  case False
  have Xne: "X \<noteq> []" using False len by auto
  let ?m = "ncols X"
  let ?dc = "np_mean0 ?m X"
  define rows where "rows = (\<lambda>ind :: nat list. map (\<lambda>t. X ! t) ind)"
  define E where "E = (\<lambda>ind. sum_list (map (\<lambda>m. euclidean (map Fin m) (np_mean0 ?m (rows ind))) (rows ind)))"
  define T where "T = (\<lambda>ind. sum_list (map (\<lambda>m. euclidean (map Fin m) ?dc) (rows ind)))"
  define R where "R = (\<lambda>ind. row_dist (map (\<lambda>j. sum_list (column X j) / real (length X)) [0..<?m])
                         (map (\<lambda>j. sum_list (column (rows ind) j) / real (length (rows ind))) [0..<?m]))"
  have step: "\<And>M i st. length M = length X \<Longrightarrow> indices_of M i \<noteq> [] \<Longrightarrow>
      PBM_index_step X M ?dc i st =
        Inr ((fst (fst st) + E (indices_of M i), snd (fst st) + T (indices_of M i)),
             snd st @ [np_float (R (indices_of M i))])"
  proof -
    fix M i st assume lenM: "length M = length X" and ne: "indices_of M i \<noteq> []"
    have r: "rows (indices_of M i) \<noteq> []" using ne by (simp add: rows_def)
    have c: "euclidean ?dc (np_mean0 ?m (rows (indices_of M i))) = np_float (R (indices_of M i))"
      unfolding np_mean0_Fin[OF Xne] np_mean0_Fin[OF r] euclidean_Fin R_def np_float_def
      by (rule refl)
    show "PBM_index_step X M ?dc i st =
        Inr ((fst (fst st) + E (indices_of M i), snd (fst st) + T (indices_of M i)),
             snd st @ [np_float (R (indices_of M i))])"
      unfolding PBM_index_step_def Let_def np_rows_indices[OF lenM] sum.case fold_PBM_index_member
      using c by (simp add: E_def T_def rows_def)
  qed
  have neL: "\<And>i. i \<in> {0..<int K} \<Longrightarrow> indices_of L i \<noteq> []"
    by (rule indices_of_nonempty[OF L])
  have L': "set (map p L) = {0..<int K}" using p L by (simp add: bij_betw_def)
  have neL': "\<And>i. i \<in> {0..<int K} \<Longrightarrow> indices_of (map p L) i \<noteq> []"
    by (rule indices_of_nonempty[OF L'])
  have loopL: "fold_err (PBM_index_step X L ?dc) (py_range (int K)) ((0, 0), [])
      = Inr ((0 + sum_list (map (\<lambda>i. E (indices_of L i)) (py_range (int K))),
              0 + sum_list (map (\<lambda>i. T (indices_of L i)) (py_range (int K)))),
             [] @ map (\<lambda>i. np_float (R (indices_of L i))) (py_range (int K)))"
    by (rule fold_err_PBM) (simp add: step[OF len] neL set_py_range)
  have loopL': "fold_err (PBM_index_step X (map p L) ?dc) (py_range (int K)) ((0, 0), [])
      = Inr ((0 + sum_list (map (\<lambda>i. E (indices_of (map p L) i)) (py_range (int K))),
              0 + sum_list (map (\<lambda>i. T (indices_of (map p L) i)) (py_range (int K)))),
             [] @ map (\<lambda>i. np_float (R (indices_of (map p L) i))) (py_range (int K)))"
    by (rule fold_err_PBM) (simp add: step neL' len set_py_range)
  have sE: "sum_list (map (\<lambda>i. E (indices_of (map p L) i)) (py_range (int K)))
      = sum_list (map (\<lambda>i. E (indices_of L i)) (py_range (int K)))"
    by (rule sum_list_relabel[OF p]) (simp add: relabel_inj[OF p L])
  have sT: "sum_list (map (\<lambda>i. T (indices_of (map p L) i)) (py_range (int K)))
      = sum_list (map (\<lambda>i. T (indices_of L i)) (py_range (int K)))"
    by (rule sum_list_relabel[OF p]) (simp add: relabel_inj[OF p L])
  have sR: "set (map (\<lambda>i. R (indices_of (map p L) i)) (py_range (int K)))
      = set (map (\<lambda>i. R (indices_of L i)) (py_range (int K)))"
    by (rule set_map_relabel[OF p]) (simp add: relabel_inj[OF p L])
  have rng: "py_range (int K) \<noteq> []"
  proof -
    have "set L \<noteq> {}" using False by simp
    then have "set (py_range (int K)) \<noteq> {}" unfolding set_py_range L .
    then show ?thesis by auto
  qed
  have mx: "py_max (map (\<lambda>i. np_float (R (indices_of (map p L) i))) (py_range (int K)))
      = py_max (map (\<lambda>i. np_float (R (indices_of L i))) (py_range (int K)))"
  proof -
    have a: "map (\<lambda>i. np_float (R (indices_of (map p L) i))) (py_range (int K))
        = map np_float (map (\<lambda>i. R (indices_of (map p L) i)) (py_range (int K)))" by simp
    have b: "map (\<lambda>i. np_float (R (indices_of L i))) (py_range (int K))
        = map np_float (map (\<lambda>i. R (indices_of L i)) (py_range (int K)))" by simp
    show ?thesis
      unfolding a b using rng sR by (simp add: py_max_np_float del: map_map)
  qed
  show ?thesis
    unfolding PBM_index_def Let_def val_init_def
    by (simp add: numCluster_relabel[OF p L False] loopL loopL' sE sT mx
        set_validation_def split: sum.splits)
qed

lemma sum_pairs_relabel:
  fixes c c' :: "int \<Rightarrow> int \<Rightarrow> 'a::comm_monoid_add"
  assumes p: "bij_betw p A A" and fin: "finite A"
    and sym: "\<And>i j. c' i j = c' j i"
    and rel: "\<And>i j. i \<in> A \<Longrightarrow> j \<in> A \<Longrightarrow> c' (p i) (p j) = c i j"
  shows "(\<Sum>x\<in>{x \<in> A \<times> A. fst x < snd x}. c' (fst x) (snd x))
       = (\<Sum>x\<in>{x \<in> A \<times> A. fst x < snd x}. c (fst x) (snd x))"
proof -
  let ?P = "{x \<in> A \<times> A. fst x < snd x}"
  define \<phi> where "\<phi> = (\<lambda>x :: int \<times> int. (min (p (fst x)) (p (snd x)), max (p (fst x)) (p (snd x))))"
  have inj: "inj_on p A" using p by (simp add: bij_betw_def)
  have pA: "\<And>i. i \<in> A \<Longrightarrow> p i \<in> A" using p by (auto simp: bij_betw_def)
  have ne: "\<And>i j. i \<in> A \<Longrightarrow> j \<in> A \<Longrightarrow> i \<noteq> j \<Longrightarrow> p i \<noteq> p j"
    using inj by (auto simp: inj_on_def)
  have maps: "\<phi> ` ?P \<subseteq> ?P"
  proof
    fix y assume "y \<in> \<phi> ` ?P"
    then obtain i j where ij: "i \<in> A" "j \<in> A" "i < j" and y: "y = \<phi> (i, j)" by auto
    have "p i \<noteq> p j" using ne[OF ij(1,2)] ij(3) by simp
    then show "y \<in> ?P" using pA[OF ij(1)] pA[OF ij(2)] unfolding y \<phi>_def
      by (auto simp: min_def max_def)
  qed
  have inj\<phi>: "inj_on \<phi> ?P"
  proof (rule inj_onI)
    fix x y assume x: "x \<in> ?P" and y: "y \<in> ?P" and e: "\<phi> x = \<phi> y"
    obtain i j where xi: "x = (i, j)" by (cases x)
    obtain k l where yk: "y = (k, l)" by (cases y)
    have A: "i \<in> A" "j \<in> A" "k \<in> A" "l \<in> A" and lt: "i < j" "k < l"
      using x y xi yk by auto
    have mn: "min (p i) (p j) = min (p k) (p l)" and mx: "max (p i) (p j) = max (p k) (p l)"
      using e unfolding xi yk \<phi>_def by simp_all
    have "(p i = p k \<and> p j = p l) \<or> (p i = p l \<and> p j = p k)"
      using mn mx by (auto simp: min_def max_def split: if_splits)
    then have "(i = k \<and> j = l) \<or> (i = l \<and> j = k)"
      using inj A by (auto simp: inj_on_def)
    then show "x = y" using lt xi yk by auto
  qed
  have finP: "finite ?P" using fin by simp
  have "\<phi> ` ?P = ?P" by (rule endo_inj_surj[OF finP maps inj\<phi>])
  then have bij: "bij_betw \<phi> ?P ?P" using inj\<phi> by (simp add: bij_betw_def)
  have "(\<Sum>x\<in>?P. c' (fst x) (snd x)) = (\<Sum>x\<in>?P. c' (fst (\<phi> x)) (snd (\<phi> x)))"
    by (rule sum.reindex_bij_betw[OF bij, symmetric])
  also have "\<dots> = (\<Sum>x\<in>?P. c (fst x) (snd x))"
  proof (rule sum.cong[OF refl])
    fix x assume x: "x \<in> ?P"
    obtain i j where xi: "x = (i, j)" by (cases x)
    have A: "i \<in> A" "j \<in> A" using x xi by auto
    have "c' (fst (\<phi> x)) (snd (\<phi> x)) = c' (p i) (p j)"
      unfolding xi \<phi>_def using sym[of "p j" "p i"] by (auto simp: min_def max_def)
    then show "c' (fst (\<phi> x)) (snd (\<phi> x)) = c (fst x) (snd x)"
      using rel[OF A] xi by simp
  qed
  finally show ?thesis .
qed

lemma sum_list_pairs_set:
  fixes c :: "int \<Rightarrow> int \<Rightarrow> 'a::comm_monoid_add"
  assumes "distinct xs"
  shows "(\<Sum>i\<leftarrow>xs. \<Sum>j\<leftarrow>xs. if j > i then c i j else 0)
       = (\<Sum>x\<in>{x \<in> set xs \<times> set xs. fst x < snd x}. c (fst x) (snd x))"
proof -
  have "(\<Sum>i\<leftarrow>xs. \<Sum>j\<leftarrow>xs. if j > i then c i j else 0)
      = (\<Sum>i\<in>set xs. \<Sum>j\<in>set xs. if i < j then c i j else 0)"
    by (simp add: sum_list_distinct_conv_sum_set[OF assms])
  also have "\<dots> = (\<Sum>x\<in>set xs \<times> set xs. if fst x < snd x then c (fst x) (snd x) else 0)"
    by (simp add: sum.cartesian_product case_prod_beta)
  also have "\<dots> = (\<Sum>x\<in>{x \<in> set xs \<times> set xs. fst x < snd x}. c (fst x) (snd x))"
    by (rule sum.inter_filter[symmetric]) simp
  finally show ?thesis .
qed

lemma pair_sum_list_relabel:
  fixes c c' :: "int \<Rightarrow> int \<Rightarrow> 'a::comm_monoid_add"
  assumes p: "bij_betw p {0..<int K} {0..<int K}"
    and sym: "\<And>i j. c' i j = c' j i"
    and rel: "\<And>i j. i \<in> {0..<int K} \<Longrightarrow> j \<in> {0..<int K} \<Longrightarrow> c' (p i) (p j) = c i j"
  shows "(\<Sum>i\<leftarrow>py_range (int K). \<Sum>j\<leftarrow>py_range (int K). if j > i then c' i j else 0)
       = (\<Sum>i\<leftarrow>py_range (int K). \<Sum>j\<leftarrow>py_range (int K). if j > i then c i j else 0)"
  unfolding sum_list_pairs_set[OF distinct_py_range] set_py_range
proof (rule sum_pairs_relabel[where p = p])
  show "bij_betw p {0..<int K} {0..<int K}" by (rule p)
  show "finite {0..<int K}" by simp
  show "\<And>i j. c' i j = c' j i" by (rule sym)
  show "\<And>i j. i \<in> {0..<int K} \<Longrightarrow> j \<in> {0..<int K} \<Longrightarrow> c' (p i) (p j) = c i j"
    by (rule rel)
qed

lemma py_sum_sum_list: "py_sum xs = sum_list xs"
  using fold_plus_acc[of "\<lambda>x. x" xs "0::pynum"] by (simp add: py_sum_def)

lemma sum_list_swap:
  fixes f :: "'b \<Rightarrow> 'c \<Rightarrow> 'a::comm_monoid_add"
  shows "(\<Sum>x\<leftarrow>xs. \<Sum>y\<leftarrow>ys. f x y) = (\<Sum>y\<leftarrow>ys. \<Sum>x\<leftarrow>xs. f x y)"
  by (induction xs) (simp_all add: sum_list_addf)

lemma row_dist_sym: "row_dist u v = row_dist v u"
proof -
  have "map2 (\<lambda>a b. (a - b)\<^sup>2) u v = map2 (\<lambda>a b. (a - b)\<^sup>2) v u"
  proof (induction u arbitrary: v)
    case Nil
    then show ?case by simp
  next
    case (Cons a u)
    show ?case by (cases v) (simp_all add: Cons.IH power2_commute)
  qed
  then show ?thesis by (simp add: row_dist_def)
qed

lemma sum_list_map_concat:
  fixes f :: "'b \<Rightarrow> 'a::comm_monoid_add"
  shows "sum_list (map f (concat xss)) = (\<Sum>xs\<leftarrow>xss. sum_list (map f xs))"
  by (induction xss) simp_all

lemma cdist_sum_sym:
  "py_sum (map np_float (concat (cdist Ra Rb))) = py_sum (map np_float (concat (cdist Rb Ra)))"
proof -
  have e: "\<And>Ra Rb. sum_list (map np_float (concat (cdist Ra Rb)))
      = (\<Sum>a\<leftarrow>Ra. \<Sum>b\<leftarrow>Rb. np_float (row_dist a b))"
    by (simp add: cdist_def sum_list_map_concat comp_def)
  have "(\<Sum>a\<leftarrow>Ra. \<Sum>b\<leftarrow>Rb. np_float (row_dist a b)) = (\<Sum>b\<leftarrow>Rb. \<Sum>a\<leftarrow>Ra. np_float (row_dist b a))"
    unfolding sum_list_swap[of _ Rb Ra] by (simp add: row_dist_sym)
  then show ?thesis unfolding py_sum_sum_list e .
qed

lemma fold_err_sum3:
  fixes a :: "'a::comm_monoid_add" and b :: "'b::comm_monoid_add" and c :: "'c::comm_monoid_add"
  assumes "\<And>i st. i \<in> set xs \<Longrightarrow>
     f i st = Inr (fst st + g1 i, fst (snd st) + g2 i, snd (snd st) + g3 i)"
  shows "fold_err f xs (a, b, c) =
     Inr (a + sum_list (map g1 xs), b + sum_list (map g2 xs), c + sum_list (map g3 xs))"
  using assms by (induction xs arbitrary: a b c) (simp_all add: add.assoc)

lemma within_between_closed:
  assumes len: "length M = length X"
  shows "fold_err (within_between_step X M (int K)) (py_range (int K)) (0, 0, 0) =
     Inr (0 + (\<Sum>i\<leftarrow>py_range (int K). py_sum (map np_float (pdist (map (\<lambda>t. X ! t) (indices_of M i))))),
          0 + (\<Sum>i\<leftarrow>py_range (int K). \<Sum>j\<leftarrow>py_range (int K).
                 if j > i then py_sum (map np_float (concat (cdist (map (\<lambda>t. X ! t) (indices_of M i))
                                                              (map (\<lambda>t. X ! t) (indices_of M j)))))
                 else 0),
          0 + (\<Sum>i\<leftarrow>py_range (int K). length (pdist (map (\<lambda>t. X ! t) (indices_of M i)))))"
proof (rule fold_err_sum3)
  fix i and st :: "pynum \<times> pynum \<times> nat"
  let ?ri = "map (\<lambda>t. X ! t) (indices_of M i)"
  let ?b = "\<lambda>j. if j > i then py_sum (map np_float (concat (cdist ?ri (map (\<lambda>t. X ! t) (indices_of M j))))) else 0"
  have inner: "\<And>sb. fold_err (between_step X M i ?ri) (py_range (int K)) sb
      = Inr (sb + sum_list (map ?b (py_range (int K))))"
    by (rule fold_err_sum) (simp add: between_step_def Let_def np_rows_indices[OF len])
  show "within_between_step X M (int K) i st =
      Inr (fst st + py_sum (map np_float (pdist ?ri)),
           fst (snd st) + sum_list (map ?b (py_range (int K))),
           snd (snd st) + length (pdist ?ri))"
    by (cases st) (simp add: within_between_step_def Let_def np_rows_indices[OF len] inner)
qed

lemma within_between_relabel:
  assumes p: "bij_betw p {0..<int K} {0..<int K}" and L: "set L = {0..<int K}"
    and len: "length L = length X"
  shows "fold_err (within_between_step X (map p L) (int K)) (py_range (int K)) (0, 0, 0)
       = fold_err (within_between_step X L (int K)) (py_range (int K)) (0, 0, 0)"
proof -
  let ?r = "\<lambda>ind :: nat list. map (\<lambda>t. X ! t) ind"
  have len': "length (map p L) = length X" using len by simp
  have 1: "(\<Sum>i\<leftarrow>py_range (int K). py_sum (map np_float (pdist (?r (indices_of (map p L) i)))))
      = (\<Sum>i\<leftarrow>py_range (int K). py_sum (map np_float (pdist (?r (indices_of L i)))))"
    by (rule sum_list_relabel[OF p]) (simp add: relabel_inj[OF p L])
  have 3: "(\<Sum>i\<leftarrow>py_range (int K). length (pdist (?r (indices_of (map p L) i))))
      = (\<Sum>i\<leftarrow>py_range (int K). length (pdist (?r (indices_of L i))))"
    by (rule sum_list_relabel[OF p]) (simp add: relabel_inj[OF p L])
  have 2: "(\<Sum>i\<leftarrow>py_range (int K). \<Sum>j\<leftarrow>py_range (int K).
                 if j > i then py_sum (map np_float (concat (cdist (?r (indices_of (map p L) i))
                                                              (?r (indices_of (map p L) j)))))
                 else 0)
      = (\<Sum>i\<leftarrow>py_range (int K). \<Sum>j\<leftarrow>py_range (int K).
                 if j > i then py_sum (map np_float (concat (cdist (?r (indices_of L i))
                                                              (?r (indices_of L j)))))
                 else 0)"
  proof (rule pair_sum_list_relabel[where p = p])
    show "bij_betw p {0..<int K} {0..<int K}" by (rule p)
  next
    fix i j
    show "py_sum (map np_float (concat (cdist (?r (indices_of (map p L) i)) (?r (indices_of (map p L) j)))))
        = py_sum (map np_float (concat (cdist (?r (indices_of (map p L) j)) (?r (indices_of (map p L) i)))))"
      by (rule cdist_sum_sym)
  next
    fix i j assume "i \<in> {0..<int K}" "j \<in> {0..<int K}"
    then show "py_sum (map np_float (concat (cdist (?r (indices_of (map p L) (p i))) (?r (indices_of (map p L) (p j))))))
        = py_sum (map np_float (concat (cdist (?r (indices_of L i)) (?r (indices_of L j)))))"
      by (simp add: relabel_inj[OF p L])
  qed
  show ?thesis
    unfolding within_between_closed[OF len] within_between_closed[OF len'] 1 2 3 by (rule refl)
qed

lemma McClain_Rao_relabel:
  assumes p: "bij_betw p {0..<int K} {0..<int K}" and L: "set L = {0..<int K}"
    and len: "length L = length X"
  shows "fst (McClain_Rao (val_init X (map p L))) = fst (McClain_Rao (val_init X L))"
proof (cases "L = []")
  case True
  then show ?thesis by simp
next
  case False
  show ?thesis
    by (simp add: McClain_Rao_def Let_def val_init_def numCluster_relabel[OF p L False]
        within_between_relabel[OF p L len] set_validation_def split: sum.splits prod.splits)
qed

lemma point_biserial_relabel:
  assumes p: "bij_betw p {0..<int K} {0..<int K}" and L: "set L = {0..<int K}"
    and len: "length L = length X"
  shows "fst (point_biserial (val_init X (map p L))) = fst (point_biserial (val_init X L))"
proof (cases "L = []")
  case True
  then show ?thesis by simp
next
  case False
  show ?thesis
    by (simp add: point_biserial_def Let_def val_init_def numCluster_relabel[OF p L False]
        within_between_relabel[OF p L len] set_validation_def split: sum.splits prod.splits)
qed

lemma silhouette_relabel:
  assumes "score X (map p L) = score X L"
  shows "fst (silhouette score (val_init X (map p L))) = fst (silhouette score (val_init X L))"
  using assms by (simp add: silhouette_def Let_def val_init_def set_validation_def split: sum.splits)

text \<open>
  Claim C5. Let the labels be exactly \<open>0, \<dots>, K-1\<close>, one per row of the data matrix, and
  let \<open>p\<close> permute \<open>0, \<dots>, K-1\<close>. Every metric of the table returns for the relabelled
  assignment \<open>map p L\<close> what it returns for \<open>L\<close>: the same score or the same exception.
  For \<^verbatim>\<open>silhouette\<close>, which only calls the library, this is the invariance of the library
  function at this input. Floats are reals here, so that sums do not depend on the order
  of their terms.
\<close>

theorem metrics_relabel_invariant:
  assumes p: "bij_betw p {0..<int K} {0..<int K}" and L: "set L = {0..<int K}"
    and len: "length L = length X"
    and sil: "score X (map p L) = score X L"
    and m: "(name, func) \<in> set (metric_table score)"
  shows "fst (func (val_init X (map p L))) = fst (func (val_init X L))"
proof -
  from m have "func \<in> {Baker_Hubert_Gamma, Ball_Hall, Banfeld_Raferty, McClain_Rao, PBM_index,
      Ratkowsky_Lance, c_index, det_ratio, g_plus_index, ksq_detw_index, log_det_ratio,
      log_ss_ratio, point_biserial, silhouette score}"
    unfolding metric_table_def by auto
  then consider "func = Baker_Hubert_Gamma" | "func = Ball_Hall" | "func = Banfeld_Raferty"
    | "func = McClain_Rao" | "func = PBM_index" | "func = Ratkowsky_Lance" | "func = c_index"
    | "func = det_ratio" | "func = g_plus_index" | "func = ksq_detw_index"
    | "func = log_det_ratio" | "func = log_ss_ratio" | "func = point_biserial"
    | "func = silhouette score"
    by blast
  then show ?thesis
  proof cases
    case 1 then show ?thesis by (simp add: Baker_Hubert_Gamma_relabel[OF p L])
  next
    case 2 then show ?thesis by (simp add: Ball_Hall_relabel[OF p L len])
  next
    case 3 then show ?thesis by (simp add: Banfeld_Raferty_relabel[OF p L len])
  next
    case 4 then show ?thesis by (simp add: McClain_Rao_relabel[OF p L len])
  next
    case 5 then show ?thesis by (simp add: PBM_index_relabel[OF p L len])
  next
    case 6 then show ?thesis by (simp add: Ratkowsky_Lance_relabel[OF p L len])
  next
    case 7 then show ?thesis by (simp add: c_index_relabel[OF p L len])
  next
    case 8 then show ?thesis by (simp add: det_ratio_relabel[OF p L len])
  next
    case 9 then show ?thesis by (simp add: g_plus_index_relabel[OF p L])
  next
    case 10 then show ?thesis by (simp add: ksq_detw_index_relabel[OF p L len])
  next
    case 11 then show ?thesis by (simp add: log_det_ratio_relabel[OF p L len])
  next
    case 12 then show ?thesis by (simp add: log_ss_ratio_relabel[OF p L len])
  next
    case 13 then show ?thesis by (simp add: point_biserial_relabel[OF p L len])
  next
    case 14 then show ?thesis using sil by (simp add: silhouette_relabel)
  qed
qed

theorem metrics_relabel_invariant_witness:
  "bij_betw (\<lambda>i. 1 - i) {0..<int 2} {0..<int 2}
   \<and> set [0, 0, 1] = {0..<int 2}
   \<and> length [0, 0, 1 :: int] = length [[0], [1], [5 :: real]]
   \<and> (''PBM_index'', PBM_index) \<in> set (metric_table (\<lambda>X L. Inl InputError))
   \<and> fst (PBM_index (val_init [[0], [1], [5]] [1, 1, 0]))
       = fst (PBM_index (val_init [[0], [1], [5]] [0, 0, 1]))"
proof -
  have b: "bij_betw (\<lambda>i. 1 - i) {0..<int 2} {0..<int 2}"
    by (rule bij_betw_byWitness[where f' = "\<lambda>i. 1 - i"]) auto
  have s: "set [0, 0, 1] = {0..<int 2}" by auto
  have l: "length [0, 0, 1 :: int] = length [[0], [1], [5 :: real]]" by simp
  have m: "(''PBM_index'', PBM_index) \<in> set (metric_table (\<lambda>X L. Inl InputError))"
    by (simp add: metric_table_def)
  have "fst (PBM_index (val_init [[0], [1], [5]] (map (\<lambda>i. 1 - i) [0, 0, 1])))
       = fst (PBM_index (val_init [[0], [1], [5]] [0, 0, 1]))"
    by (rule metrics_relabel_invariant[OF b s l _ m]) simp
  then have r: "fst (PBM_index (val_init [[0], [1], [5]] [1, 1, 0]))
       = fst (PBM_index (val_init [[0], [1], [5]] [0, 0, 1]))" by simp
  show ?thesis using b s l m r by (intro conjI)
qed


end
